theory Spec2Isabelle
  imports Complex_Main "HOL-Library.Multiset"
begin

section \<open>The mesh view (stl\_parser.h)\<close>

text \<open>
  A C \<open>float\<close> is read as a real number: comparisons and arithmetic are exact, and
  NaN and the infinities are left out. Fixed-size arrays (\<open>float[3]\<close>, \<open>float[3][3]\<close>,
  \<open>float[6]\<close>) are lists read by index; an array with a separate element count is a
  list whose length is the count, except for the mesh, which keeps its
  \<open>num_triangles\<close> field. \<open>unsigned int\<close> counters are natural numbers.
  Every request for a non-empty block of memory is taken to succeed, except a request
  whose size comes from a negative count (the grid of the voxel strategy).
\<close>

record stl_triangle_t =
  normal :: "real list"
  vertices :: "real list list"

record stl_file_t =
  num_triangles :: nat
  triangles :: "stl_triangle_t list"
  bounds :: "real list"

text \<open>The largest finite \<open>float\<close>, \<open>(2 - 2\<^sup>-\<^sup>2\<^sup>3) * 2\<^sup>1\<^sup>2\<^sup>7\<close>, written out.\<close>

definition FLT_MAX :: real where
  "FLT_MAX = 340282346638528859811704183484516925440"

section \<open>Bounding volume tree (bvh.c)\<close>

datatype sort_axis_t = SORT_X | SORT_Y | SORT_Z | SORT_XY | SORT_XZ | SORT_YZ | SORT_XYZ

text \<open>The cast \<open>(sort_axis_t)(depth % 3)\<close>: the enumerators are numbered from 0.\<close>

definition sort_axis_of_nat :: "nat \<Rightarrow> sort_axis_t" where
  "sort_axis_of_nat n =
     (if n = 0 then SORT_X else if n = 1 then SORT_Y else if n = 2 then SORT_Z
      else if n = 3 then SORT_XY else if n = 4 then SORT_XZ else if n = 5 then SORT_YZ
      else SORT_XYZ)"

text \<open>
  A node carries its tag, its six bounds \<open>[min_x, min_y, min_z, max_x, max_y, max_z]\<close>
  and either the indices of a leaf or the two children.
\<close>

datatype bvh_node_t =
    BVH_LEAF (node_bounds: "real list") (leaf_triangle_indices: "nat list")
  | BVH_INTERNAL (node_bounds: "real list") (internal_left: bvh_node_t) (internal_right: bvh_node_t)

record bvh_tree_t =
  root :: bvh_node_t
  num_nodes :: nat
  max_depth :: nat
  max_triangles_per_leaf :: nat

text \<open>
  \<open>bvh_get_center_coordinate\<close>: the three vertices are summed from 0 into
  \<open>center\<close>, each sum is divided by 3, and the axis selects the component.
\<close>

definition bvh_get_center_coordinate :: "stl_triangle_t \<Rightarrow> sort_axis_t \<Rightarrow> real" where
  "bvh_get_center_coordinate triangle axis =
     (let center = foldl (\<lambda>c i. [c ! 0 + vertices triangle ! i ! 0,
                                   c ! 1 + vertices triangle ! i ! 1,
                                   c ! 2 + vertices triangle ! i ! 2]) [0, 0, 0] [0..<3];
          center = [center ! 0 / 3, center ! 1 / 3, center ! 2 / 3]
      in case axis of
           SORT_X \<Rightarrow> center ! 0
         | SORT_Y \<Rightarrow> center ! 1
         | SORT_Z \<Rightarrow> center ! 2
         | _ \<Rightarrow> center ! 0)"

text \<open>\<open>bvh_compare_triangles\<close>, with the context (mesh and axis) as arguments.\<close>

definition bvh_compare_triangles :: "stl_file_t \<Rightarrow> sort_axis_t \<Rightarrow> nat \<Rightarrow> nat \<Rightarrow> int" where
  "bvh_compare_triangles stl axis idx_a idx_b =
     (let coord_a = bvh_get_center_coordinate (triangles stl ! idx_a) axis;
          coord_b = bvh_get_center_coordinate (triangles stl ! idx_b) axis
      in if coord_a < coord_b then -1 else if coord_a > coord_b then 1 else 0)"

text \<open>
  \<open>qsort_r\<close> belongs to the C library, not to the repository, so it is a parameter
  of the model: a function from a comparator and an array to the rearranged array.
  What the library promises for a consistent comparator is that the result is a
  rearrangement of the input in which no element is followed by one that compares
  smaller; the order of elements that compare equal is left open.
\<close>

type_synonym qsort_r_t = "(nat \<Rightarrow> nat \<Rightarrow> int) \<Rightarrow> nat list \<Rightarrow> nat list"

definition cmp_consistent :: "(nat \<Rightarrow> nat \<Rightarrow> int) \<Rightarrow> bool" where
  "cmp_consistent cmp \<longleftrightarrow>
     (\<forall>a b. (cmp a b < 0 \<longleftrightarrow> 0 < cmp b a) \<and> (cmp a b = 0 \<longleftrightarrow> cmp b a = 0)) \<and>
     (\<forall>a b c. cmp a b \<le> 0 \<and> cmp b c \<le> 0 \<longrightarrow> cmp a c \<le> 0)"

definition qsort_r_contract :: "qsort_r_t \<Rightarrow> bool" where
  "qsort_r_contract q \<longleftrightarrow>
     (\<forall>cmp xs. cmp_consistent cmp \<longrightarrow>
        mset (q cmp xs) = mset xs \<and> sorted_wrt (\<lambda>a b. cmp a b \<le> 0) (q cmp xs))"

definition bvh_sort_triangles_by_axis ::
  "qsort_r_t \<Rightarrow> nat list \<Rightarrow> stl_file_t \<Rightarrow> sort_axis_t \<Rightarrow> nat list" where
  "bvh_sort_triangles_by_axis qsort_r triangle_indices stl sort_axis =
     (if triangle_indices = [] then triangle_indices
      else qsort_r (bvh_compare_triangles stl sort_axis) triangle_indices)"

text \<open>
  \<open>bvh_calculate_bounds\<close>. The innermost statement pair of the leaf loop is
  \<open>expand_bounds\<close>; the loops over the vertex \<open>j\<close>, the axis \<open>k\<close> and the triangles
  of the leaf are folds. For an internal node the left child's bounds are copied and
  then widened by the right child's.
\<close>

definition expand_bounds :: "real list \<Rightarrow> nat \<Rightarrow> real \<Rightarrow> real list" where
  "expand_bounds b k val =
     (let b = (if val < b ! k then b[k := val] else b)
      in if val > b ! (k + 3) then b[k + 3 := val] else b)"

definition expand_bounds_triangle :: "real list \<Rightarrow> stl_triangle_t \<Rightarrow> real list" where
  "expand_bounds_triangle b triangle =
     foldl (\<lambda>b j. foldl (\<lambda>b k. expand_bounds b k (vertices triangle ! j ! k)) b [0..<3]) b [0..<3]"

definition expand_bounds_child :: "real list \<Rightarrow> real list \<Rightarrow> real list" where
  "expand_bounds_child b rb =
     foldl (\<lambda>b i.
        let b = (if rb ! i < b ! i then b[i := rb ! i] else b)
        in if rb ! (i + 3) > b ! (i + 3) then b[i + 3 := rb ! (i + 3)] else b) b [0..<3]"

fun bvh_calculate_bounds :: "bvh_node_t \<Rightarrow> stl_file_t \<Rightarrow> bvh_node_t" where
  "bvh_calculate_bounds (BVH_LEAF b idxs) stl =
     (if idxs = [] then BVH_LEAF b idxs
      else BVH_LEAF
             (foldl (\<lambda>b triangle_idx. expand_bounds_triangle b (triangles stl ! triangle_idx))
                [FLT_MAX, FLT_MAX, FLT_MAX, - FLT_MAX, - FLT_MAX, - FLT_MAX] idxs)
             idxs)"
| "bvh_calculate_bounds (BVH_INTERNAL b l r) stl =
     BVH_INTERNAL (expand_bounds_child (node_bounds l) (node_bounds r)) l r"

text \<open>
  \<open>bvh_build_recursive\<close>. The index array is sorted in place and the two halves are
  handed on as \<open>triangle_indices\<close> (the first \<open>mid\<close> entries) and
  \<open>triangle_indices + mid\<close> (the rest). \<open>None\<close> is the NULL result. A fresh node's
  bounds are not yet written, shown as the empty list; \<open>bvh_calculate_bounds\<close>
  writes all six.
\<close>

function bvh_build_recursive ::
  "qsort_r_t \<Rightarrow> stl_file_t \<Rightarrow> nat list \<Rightarrow> nat \<Rightarrow> nat \<Rightarrow> nat \<Rightarrow> sort_axis_t \<Rightarrow> bvh_node_t option" where
  "bvh_build_recursive qsort_r stl triangle_indices depth max_d max_leaf sort_axis =
     (if triangle_indices = [] then None
      else if length triangle_indices \<le> max_leaf \<or> depth \<ge> max_d
        then Some (bvh_calculate_bounds (BVH_LEAF [] triangle_indices) stl)
      else
        (let current_axis = sort_axis_of_nat (depth mod 3);
             sorted = bvh_sort_triangles_by_axis qsort_r triangle_indices stl current_axis;
             mid = length triangle_indices div 2
         in case bvh_build_recursive qsort_r stl (take mid sorted) (depth + 1) max_d max_leaf sort_axis of
              None \<Rightarrow> None
            | Some l \<Rightarrow>
               (case bvh_build_recursive qsort_r stl (drop mid sorted) (depth + 1) max_d max_leaf sort_axis of
                  None \<Rightarrow> None
                | Some r \<Rightarrow> Some (bvh_calculate_bounds (BVH_INTERNAL [] l r) stl))))"
  by pat_completeness auto
termination
  by (relation "measure (\<lambda>(q, stl, idxs, depth, max_d, max_leaf, ax). max_d - depth)") auto

declare bvh_build_recursive.simps [simp del]

definition bvh_create :: "qsort_r_t \<Rightarrow> stl_file_t \<Rightarrow> nat \<Rightarrow> bvh_tree_t option" where
  "bvh_create qsort_r stl max_leaf =
     (if num_triangles stl = 0 then None
      else case bvh_build_recursive qsort_r stl [0..<num_triangles stl] 0 20 max_leaf SORT_XYZ of
             None \<Rightarrow> None
           | Some r \<Rightarrow> Some \<lparr>root = r, num_nodes = 0, max_depth = 0, max_triangles_per_leaf = max_leaf\<rparr>)"

fun leaf_indices :: "bvh_node_t \<Rightarrow> nat list" where
  "leaf_indices (BVH_LEAF b idxs) = idxs"
| "leaf_indices (BVH_INTERNAL b l r) = leaf_indices l @ leaf_indices r"

text \<open>
  \<open>leaf_indices\<close> lists the triangle indices of the leaves from left to right, so an
  index that sat in two leaves, or twice in one, would occur twice in it.
\<close>

subsection \<open>The bounding box of the mesh (stl\_parser.c)\<close>

text \<open>
  \<open>stl_calculate_bounds\<close>, which \<open>stl_load_file\<close> calls on every mesh it returns. Its
  loop body is the statement pair of \<open>expand_bounds\<close>, run over every coordinate of
  every vertex of every triangle, from the same start values.
\<close>

definition stl_calculate_bounds :: "stl_file_t \<Rightarrow> stl_file_t" where
  "stl_calculate_bounds stl =
     (if num_triangles stl = 0 then stl
      else stl\<lparr>bounds :=
             foldl (\<lambda>b i. expand_bounds_triangle b (triangles stl ! i))
               [FLT_MAX, FLT_MAX, FLT_MAX, - FLT_MAX, - FLT_MAX, - FLT_MAX]
               [0..<num_triangles stl]\<rparr>)"

subsection \<open>What the claims about the tree say\<close>

text \<open>
  \<open>leaf_coords stl idxs k\<close> lists coordinate \<open>k\<close> of every vertex of the triangles
  \<open>idxs\<close>. \<open>bounds_exact\<close> holds of a tree when every leaf's box is the minimum and
  maximum of those coordinates on each axis and every internal node's box is the
  minimum of its children's minima and the maximum of their maxima. A finite
  \<open>float\<close> lies between \<open>- FLT_MAX\<close> and \<open>FLT_MAX\<close>; \<open>mesh_finite\<close> says so of the mesh.
\<close>

definition leaf_coords :: "stl_file_t \<Rightarrow> nat list \<Rightarrow> nat \<Rightarrow> real list" where
  "leaf_coords stl idxs k =
     concat (map (\<lambda>i. map (\<lambda>j. vertices (triangles stl ! i) ! j ! k) [0..<3]) idxs)"

fun bounds_exact :: "stl_file_t \<Rightarrow> bvh_node_t \<Rightarrow> bool" where
  "bounds_exact stl (BVH_LEAF b idxs) =
     (length b = 6 \<and>
      (\<forall>k<3. b ! k = Min (set (leaf_coords stl idxs k)) \<and>
              b ! (k + 3) = Max (set (leaf_coords stl idxs k))))"
| "bounds_exact stl (BVH_INTERNAL b l r) =
     (length b = 6 \<and>
      (\<forall>k<3. b ! k = min (node_bounds l ! k) (node_bounds r ! k) \<and>
              b ! (k + 3) = max (node_bounds l ! (k + 3)) (node_bounds r ! (k + 3))) \<and>
      bounds_exact stl l \<and> bounds_exact stl r)"

definition mesh_finite :: "stl_file_t \<Rightarrow> bool" where
  "mesh_finite stl \<longleftrightarrow>
     (\<forall>i<num_triangles stl. \<forall>j<3. \<forall>k<3.
        - FLT_MAX \<le> vertices (triangles stl ! i) ! j ! k \<and>
        vertices (triangles stl ! i) ! j ! k \<le> FLT_MAX)"

text \<open>
  \<open>centroid_coordinate stl k i\<close> is the mean of coordinate \<open>k\<close> of the three vertices of
  triangle \<open>i\<close>. \<open>stable_qsort_r\<close> says of a library sort that, for a consistent
  comparator, it rearranges the array into comparator order and leaves elements that
  compare equal in the order in which they came. \<open>stable_splits stl candidates depth\<close>
  holds of a subtree when it is what the specification describes for the candidate
  list \<open>candidates\<close> at depth \<open>depth\<close>: a leaf holds the candidates as they came; at an
  internal node the candidates, put in ascending order of their centroid coordinate on
  axis \<open>depth mod 3\<close> with equal coordinates in the order in which they came
  (\<open>sort_key\<close>), are cut at the midpoint, the first half (rounded down) going to the
  left child and the rest to the right child, one level deeper.
\<close>

definition centroid_coordinate :: "stl_file_t \<Rightarrow> nat \<Rightarrow> nat \<Rightarrow> real" where
  "centroid_coordinate stl k i =
     (vertices (triangles stl ! i) ! 0 ! k + vertices (triangles stl ! i) ! 1 ! k
      + vertices (triangles stl ! i) ! 2 ! k) / 3"

definition stable_qsort_r :: "qsort_r_t \<Rightarrow> bool" where
  "stable_qsort_r q \<longleftrightarrow>
     (\<forall>cmp xs. cmp_consistent cmp \<longrightarrow>
        mset (q cmp xs) = mset xs \<and> sorted_wrt (\<lambda>a b. cmp a b \<le> 0) (q cmp xs) \<and>
        (\<forall>k. filter (\<lambda>x. cmp k x = 0) (q cmp xs) = filter (\<lambda>x. cmp k x = 0) xs))"

fun stable_splits :: "stl_file_t \<Rightarrow> nat list \<Rightarrow> nat \<Rightarrow> bvh_node_t \<Rightarrow> bool" where
  "stable_splits stl candidates depth (BVH_LEAF b idxs) = (idxs = candidates)"
| "stable_splits stl candidates depth (BVH_INTERNAL b l r) =
     (stable_splits stl
        (take (length candidates div 2) (sort_key (centroid_coordinate stl (depth mod 3)) candidates))
        (depth + 1) l \<and>
      stable_splits stl
        (drop (length candidates div 2) (sort_key (centroid_coordinate stl (depth mod 3)) candidates))
        (depth + 1) r)"

section \<open>Partition index (bvh.c)\<close>

record spatial_partition_t =
  bvh :: bvh_tree_t
  partition_ids :: "nat list"
  num_partitions :: nat
  partition_bounds :: "real list"

text \<open>The six bounds written for partition \<open>i\<close>, at \<open>base_idx = i * 6\<close>.\<close>

definition partition_slab :: "stl_file_t \<Rightarrow> real \<Rightarrow> nat \<Rightarrow> real list" where
  "partition_slab stl partition_width i =
     [bounds stl ! 0 + real i * partition_width, bounds stl ! 1, bounds stl ! 2,
      bounds stl ! 0 + real (i + 1) * partition_width, bounds stl ! 4, bounds stl ! 5]"

text \<open>
  The inner loop over \<open>j\<close> with its \<open>break\<close>; \<open>partition_id\<close> starts at 0 and keeps
  that value when no partition matches.
\<close>

fun find_partition :: "real list \<Rightarrow> real \<Rightarrow> nat list \<Rightarrow> nat" where
  "find_partition pb center_x [] = 0"
| "find_partition pb center_x (j # js) =
     (if center_x \<ge> pb ! (j * 6) \<and> center_x < pb ! (j * 6 + 3) then j
      else find_partition pb center_x js)"

definition spatial_partition_create ::
  "qsort_r_t \<Rightarrow> stl_file_t \<Rightarrow> nat \<Rightarrow> sort_axis_t \<Rightarrow> spatial_partition_t option" where
  "spatial_partition_create qsort_r stl n_partitions sort_axis =
     (if n_partitions = 0 then None
      else case bvh_create qsort_r stl 10 of
        None \<Rightarrow> None
      | Some tree \<Rightarrow>
         (let total_width = bounds stl ! 3 - bounds stl ! 0;
              partition_width = total_width / real n_partitions;
              pb = concat (map (partition_slab stl partition_width) [0..<n_partitions]);
              ids = map (\<lambda>i.
                      let triangle = triangles stl ! i;
                          center_x = (vertices triangle ! 0 ! 0 + vertices triangle ! 1 ! 0
                                      + vertices triangle ! 2 ! 0) / 3
                      in find_partition pb center_x [0..<n_partitions]) [0..<num_triangles stl]
          in Some \<lparr>bvh = tree, partition_ids = ids, num_partitions = n_partitions,
                    partition_bounds = pb\<rparr>))"

text \<open>The centroid X coordinate computed for triangle \<open>i\<close> in the assignment loop.\<close>

definition centroid_x :: "stl_file_t \<Rightarrow> nat \<Rightarrow> real" where
  "centroid_x stl i =
     (vertices (triangles stl ! i) ! 0 ! 0 + vertices (triangles stl ! i) ! 1 ! 0
      + vertices (triangles stl ! i) ! 2 ! 0) / 3"

section \<open>Convex decomposition (convex\_decomposition.c)\<close>

datatype decomposition_strategy_t =
  DECOMP_APPROX_CONVEX | DECOMP_EXACT_CONVEX | DECOMP_HIERARCHICAL | DECOMP_VOXEL_BASED

text \<open>
  The hull's vertex array is a pointer that may be NULL (\<open>None\<close>). The triangle
  indices of a part and the parts of a decomposition are lists; their counts
  (\<open>num_triangles\<close>, \<open>num_parts\<close>) are the lengths, and the allocated capacities are
  kept as fields. The field \<open>hull\<close> of a part is \<open>part_hull\<close> and the two \<open>capacity\<close>
  fields are \<open>part_capacity\<close> and \<open>decomp_capacity\<close>.

  The parts array of a decomposition holds pointers to parts, and the type variable
  of \<open>convex_decomposition_t\<close> is the view of such a pointer. The hierarchical and the
  voxel strategy store pointers to parts that they create for the decomposition and
  neither write nor release afterwards: there a pointer is shown as the part it
  points to. The approximate strategy stores the pointer it was given and releases the
  part afterwards: there a pointer is shown as a \<open>part_ref\<close> (below).
\<close>

record convex_hull_t =
  hull_vertices :: "(real \<times> real \<times> real) list option"
  hull_num_vertices :: nat
  hull_capacity :: nat
  hull_bounds :: "real list"

record convex_part_t =
  part_hull :: convex_hull_t
  triangle_indices :: "nat list"
  part_capacity :: nat
  center :: "real list"
  volume :: real

record 'p convex_decomposition_t =
  parts :: "'p list"
  decomp_capacity :: nat
  strategy :: decomposition_strategy_t
  total_volume :: real
  decomposition_quality :: real

text \<open>
  \<open>convex_part_create\<close> sets every field of the new part except \<open>hull.bounds\<close>, which
  keeps what \<open>malloc\<close> left in the block. That content is the argument \<open>junk\<close>: the
  strategies take a function \<open>junk\<close> from the place of an allocation in the run (a
  path) to the six values found there, so that nothing is assumed about them.
\<close>

type_synonym junk_t = "nat list \<Rightarrow> real list"

definition convex_part_create :: "real list \<Rightarrow> nat \<Rightarrow> convex_part_t" where
  "convex_part_create junk initial_capacity =
     \<lparr>part_hull = \<lparr>hull_vertices = None, hull_num_vertices = 0, hull_capacity = 0, hull_bounds = junk\<rparr>,
      triangle_indices = [], part_capacity = initial_capacity, center = [0, 0, 0], volume = 0\<rparr>"

text \<open>
  Growth doubles the capacity. A capacity of 0 stays 0, and \<open>realloc\<close> to zero bytes
  releases the block and returns NULL (the C library the code is written for, whose
  \<open>qsort_r\<close> it calls, does this), so the function returns without storing.
\<close>

definition convex_part_add_triangle :: "convex_part_t \<Rightarrow> nat \<Rightarrow> convex_part_t" where
  "convex_part_add_triangle part triangle_index =
     (if length (triangle_indices part) \<ge> part_capacity part
      then (let part = part\<lparr>part_capacity := part_capacity part * 2\<rparr>
            in if part_capacity part = 0 then part
               else part\<lparr>triangle_indices := triangle_indices part @ [triangle_index]\<rparr>)
      else part\<lparr>triangle_indices := triangle_indices part @ [triangle_index]\<rparr>)"

definition convex_part_compute_properties :: "convex_part_t \<Rightarrow> stl_file_t \<Rightarrow> convex_part_t" where
  "convex_part_compute_properties part stl =
     (if triangle_indices part = [] then part
      else
        (let (total_x, total_y, total_z, total_vertices) =
               foldl (\<lambda>acc triangle_idx.
                  foldl (\<lambda>(tx, ty, tz, tv) j.
                     (tx + vertices (triangles stl ! triangle_idx) ! j ! 0,
                      ty + vertices (triangles stl ! triangle_idx) ! j ! 1,
                      tz + vertices (triangles stl ! triangle_idx) ! j ! 2,
                      tv + 1)) acc [0..<3])
                 (0, 0, 0, 0 :: nat) (triangle_indices part);
             part = (if total_vertices > 0
                     then part\<lparr>center := [total_x / real total_vertices,
                                          total_y / real total_vertices,
                                          total_z / real total_vertices]\<rparr>
                     else part)
         in part\<lparr>volume := real (length (triangle_indices part)) * (1 / 10)\<rparr>))"

definition convex_decomposition_create :: "nat \<Rightarrow> 'p convex_decomposition_t" where
  "convex_decomposition_create initial_capacity =
     \<lparr>parts = [], decomp_capacity = initial_capacity, strategy = DECOMP_APPROX_CONVEX,
      total_volume = 0, decomposition_quality = 0\<rparr>"

text \<open>
  \<open>convex_decomposition_add_part\<close> stores the pointer and reads the volume of the part
  through it; \<open>read_volume\<close> is that read.
\<close>

definition convex_decomposition_add_part ::
  "('p \<Rightarrow> real) \<Rightarrow> 'p convex_decomposition_t \<Rightarrow> 'p \<Rightarrow> 'p convex_decomposition_t" where
  "convex_decomposition_add_part read_volume decomp part =
     (if length (parts decomp) \<ge> decomp_capacity decomp
      then (let decomp = decomp\<lparr>decomp_capacity := decomp_capacity decomp * 2\<rparr>
            in if decomp_capacity decomp = 0 then decomp
               else decomp\<lparr>parts := parts decomp @ [part],
                            total_volume := total_volume decomp + read_volume part\<rparr>)
      else decomp\<lparr>parts := parts decomp @ [part],
                   total_volume := total_volume decomp + read_volume part\<rparr>)"

definition compute_volume :: "convex_hull_t \<Rightarrow> real" where
  "compute_volume h =
     (if hull_num_vertices h < 4 then 0
      else (let width = hull_bounds h ! 3 - hull_bounds h ! 0;
                height = hull_bounds h ! 4 - hull_bounds h ! 1;
                depth = hull_bounds h ! 5 - hull_bounds h ! 2
            in width * height * depth))"

definition compute_part_concavity :: "convex_part_t \<Rightarrow> stl_file_t \<Rightarrow> real" where
  "compute_part_concavity part stl =
     (if triangle_indices part = [] then 0
      else (let hull_volume = compute_volume (part_hull part);
                actual_volume = volume part
            in if hull_volume \<le> 0 then 0
               else (let concavity = (hull_volume - actual_volume) / hull_volume;
                         concavity = (if concavity < 0 then 0 else concavity);
                         concavity = (if concavity > 1 then 1 else concavity)
                     in concavity)))"

definition compute_decomposition_quality :: "('p \<Rightarrow> real) \<Rightarrow> 'p convex_decomposition_t \<Rightarrow> real" where
  "compute_decomposition_quality read_volume decomp =
     (if parts decomp = [] then 0
      else (let avg_volume = total_volume decomp / real (length (parts decomp));
                variance = foldl (\<lambda>variance p.
                              let diff = read_volume p - avg_volume in variance + diff * diff)
                             0 (parts decomp);
                variance = variance / real (length (parts decomp))
            in 1 / (1 + variance)))"

text \<open>
  The split shared by the approximate and the hierarchical strategy: the axis with
  the strictly largest extent of \<open>hull.bounds\<close> (X unless Y or Z wins), the midpoint
  on it, and the loop that hands each triangle to the left or the right part.
\<close>

definition split_axis_of :: "convex_part_t \<Rightarrow> nat" where
  "split_axis_of part =
     (let dx = hull_bounds (part_hull part) ! 3 - hull_bounds (part_hull part) ! 0;
          dy = hull_bounds (part_hull part) ! 4 - hull_bounds (part_hull part) ! 1;
          dz = hull_bounds (part_hull part) ! 5 - hull_bounds (part_hull part) ! 2
      in if dy > dx \<and> dy > dz then 1 else if dz > dx \<and> dz > dy then 2 else 0)"

definition split_value_of :: "convex_part_t \<Rightarrow> nat \<Rightarrow> real" where
  "split_value_of part split_axis =
     (hull_bounds (part_hull part) ! split_axis + hull_bounds (part_hull part) ! (split_axis + 3)) / 2"

definition distribute_triangles ::
  "stl_file_t \<Rightarrow> nat \<Rightarrow> real \<Rightarrow> nat list \<Rightarrow> convex_part_t \<times> convex_part_t
     \<Rightarrow> convex_part_t \<times> convex_part_t" where
  "distribute_triangles stl split_axis split_value idxs lr =
     foldl (\<lambda>(left_part, right_part) triangle_idx.
        let triangle = triangles stl ! triangle_idx;
            c = (vertices triangle ! 0 ! split_axis + vertices triangle ! 1 ! split_axis
                 + vertices triangle ! 2 ! split_axis) / 3
        in if c < split_value
           then (convex_part_add_triangle left_part triangle_idx, right_part)
           else (left_part, convex_part_add_triangle right_part triangle_idx)) lr idxs"

text \<open>
  A pointer to a part, in the approximate strategy, is a \<open>part_ref\<close>: the block that
  holds the part, named like the unwritten memory by the place of its allocation in
  the run, and the part that the block held when the pointer was stored. No part is
  written after a pointer to it has been stored, so as long as the block is allocated
  a read through the pointer gives that part. \<open>convex_part_free\<close> releases a block (the
  struct and the two arrays that hang from it); the blocks released so far are the set
  \<open>released\<close>. A block is not named again: memory that the allocator hands out a
  second time is another block. A read through a pointer to a released block gives
  whatever that memory holds by then, which is the argument \<open>stale\<close> (\<open>read_part\<close>).
\<close>

record part_ref =
  ref_block :: "nat list"
  ref_part :: convex_part_t

type_synonym stale_t = "nat list \<Rightarrow> convex_part_t"

definition convex_part_free :: "nat list set \<Rightarrow> nat list \<Rightarrow> nat list set" where
  "convex_part_free released part = insert part released"

definition read_part :: "stale_t \<Rightarrow> nat list set \<Rightarrow> part_ref \<Rightarrow> convex_part_t" where
  "read_part stale released r =
     (if ref_block r \<in> released then stale (ref_block r) else ref_part r)"

text \<open>
  \<open>approximate_decompose_part\<close>. The recursion has no bound of its own, so the
  function is partial: \<open>None\<close> means that the call does not return. \<open>path\<close> names the
  block of \<open>part\<close>, which is allocated throughout the call, so that the reads of the
  call through the pointer give \<open>part\<close>. The pointer to the part that is passed in is
  itself stored in the decomposition. The two parts of a split are released at the
  end, whether or not pointers to them have been stored.
\<close>

partial_function (option) approximate_decompose_part ::
  "junk_t \<Rightarrow> nat list \<Rightarrow> convex_part_t \<Rightarrow> stl_file_t \<Rightarrow> part_ref convex_decomposition_t
     \<Rightarrow> nat list set \<Rightarrow> nat \<Rightarrow> real \<Rightarrow> (part_ref convex_decomposition_t \<times> nat list set) option" where
  "approximate_decompose_part junk path part stl decomp released max_parts concavity_tolerance =
     (if triangle_indices part = [] then Some (decomp, released)
      else if length (parts decomp) \<ge> max_parts
        then Some (convex_decomposition_add_part (\<lambda>r. volume (ref_part r)) decomp
                     \<lparr>ref_block = path, ref_part = part\<rparr>, released)
      else if compute_part_concavity part stl \<le> concavity_tolerance
              \<or> length (triangle_indices part) < 10
        then Some (convex_decomposition_add_part (\<lambda>r. volume (ref_part r)) decomp
                     \<lparr>ref_block = path, ref_part = part\<rparr>, released)
      else
        (case distribute_triangles stl (split_axis_of part)
                (split_value_of part (split_axis_of part)) (triangle_indices part)
                (convex_part_create (junk (0 # path)) (length (triangle_indices part) div 2),
                 convex_part_create (junk (1 # path)) (length (triangle_indices part) div 2)) of
           (left_part, right_part) \<Rightarrow>
             Option.bind
               (if triangle_indices left_part \<noteq> []
                then approximate_decompose_part junk (0 # path)
                       (convex_part_compute_properties left_part stl) stl decomp released
                       max_parts concavity_tolerance
                else Some (decomp, released))
               (\<lambda>(decomp, released).
                  Option.bind
                    (if triangle_indices right_part \<noteq> []
                     then approximate_decompose_part junk (1 # path)
                            (convex_part_compute_properties right_part stl) stl decomp released
                            max_parts concavity_tolerance
                     else Some (decomp, released))
                    (\<lambda>(decomp, released).
                       Some (decomp,
                             convex_part_free (convex_part_free released (0 # path))
                               (1 # path))))))"

declare approximate_decompose_part.simps [code]

text \<open>
  \<open>approximate_convex_decomposition\<close>. The outer \<open>option\<close> is \<open>None\<close> when the call does
  not return; the inner one is the pointer that is returned, \<open>None\<close> for NULL, shown
  with the set of blocks that have been released by then. The initial part is
  released before the quality is computed, so the quality is computed from reads
  through pointers to released blocks.
\<close>

definition approximate_convex_decomposition ::
  "stale_t \<Rightarrow> junk_t \<Rightarrow> stl_file_t \<Rightarrow> nat \<Rightarrow> real \<Rightarrow> real
     \<Rightarrow> (part_ref convex_decomposition_t \<times> nat list set) option option" where
  "approximate_convex_decomposition stale junk stl max_parts quality_threshold
       concavity_tolerance =
     (if num_triangles stl = 0 then Some None
      else
        (let decomp = (convex_decomposition_create max_parts)\<lparr>strategy := DECOMP_APPROX_CONVEX\<rparr>;
             current_part = foldl convex_part_add_triangle
                              (convex_part_create (junk []) (num_triangles stl))
                              [0..<num_triangles stl];
             current_part = convex_part_compute_properties current_part stl
         in case approximate_decompose_part junk [] current_part stl decomp {} max_parts
                   concavity_tolerance of
              None \<Rightarrow> None
            | Some (decomp, released) \<Rightarrow>
                (let released = convex_part_free released []
                 in Some (Some (decomp\<lparr>decomposition_quality :=
                                  compute_decomposition_quality
                                    (\<lambda>r. volume (read_part stale released r)) decomp\<rparr>,
                                released)))))"

text \<open>
  \<open>hierarchical_split_part\<close>. A part that is not split further is copied into a new
  part, and the pointer to the copy is stored. The depth grows with every call, up to
  \<open>max_depth\<close>. The parts of a split and the initial part are released when they have
  been dealt with; no pointer to one of them is ever stored, and the copies are not
  released, so here a stored pointer is shown as the part it points to.
\<close>

function hierarchical_split_part ::
  "junk_t \<Rightarrow> nat list \<Rightarrow> convex_part_t \<Rightarrow> stl_file_t \<Rightarrow> convex_part_t convex_decomposition_t \<Rightarrow> nat \<Rightarrow> nat
     \<Rightarrow> real \<Rightarrow> convex_part_t convex_decomposition_t" where
  "hierarchical_split_part junk path part stl decomp depth max_d split_threshold =
     (if depth \<ge> max_d \<or> length (triangle_indices part) < 10
      then
        (let new_part = foldl convex_part_add_triangle
                          (convex_part_create (junk (2 # path)) (length (triangle_indices part)))
                          (triangle_indices part);
             new_part = convex_part_compute_properties new_part stl
         in convex_decomposition_add_part volume decomp new_part)
      else
        (case distribute_triangles stl (split_axis_of part)
                (split_value_of part (split_axis_of part)) (triangle_indices part)
                (convex_part_create (junk (0 # path)) (length (triangle_indices part) div 2),
                 convex_part_create (junk (1 # path)) (length (triangle_indices part) div 2)) of
           (left_part, right_part) \<Rightarrow>
             (let decomp =
                    (if triangle_indices left_part \<noteq> []
                     then hierarchical_split_part junk (0 # path)
                            (convex_part_compute_properties left_part stl) stl decomp (depth + 1)
                            max_d split_threshold
                     else decomp)
              in if triangle_indices right_part \<noteq> []
                 then hierarchical_split_part junk (1 # path)
                        (convex_part_compute_properties right_part stl) stl decomp (depth + 1)
                        max_d split_threshold
                 else decomp)))"
  by pat_completeness auto
termination
  by (relation "measure (\<lambda>(junk, path, part, stl, decomp, depth, max_d, thr). max_d - depth)") auto

declare hierarchical_split_part.simps [simp del]

text \<open>The capacity \<open>1 << max_depth\<close> is read as \<open>2 ^ max_depth\<close>.\<close>

definition hierarchical_decomposition ::
  "junk_t \<Rightarrow> stl_file_t \<Rightarrow> nat \<Rightarrow> real \<Rightarrow> convex_part_t convex_decomposition_t option" where
  "hierarchical_decomposition junk stl max_d split_threshold =
     (if num_triangles stl = 0 then None
      else
        (let decomp = (convex_decomposition_create (2 ^ max_d))\<lparr>strategy := DECOMP_HIERARCHICAL\<rparr>;
             root_part = foldl convex_part_add_triangle
                           (convex_part_create (junk []) (num_triangles stl))
                           [0..<num_triangles stl];
             root_part = convex_part_compute_properties root_part stl;
             decomp = hierarchical_split_part junk [] root_part stl decomp 0 max_d split_threshold
         in Some (decomp\<lparr>decomposition_quality := compute_decomposition_quality volume decomp\<rparr>)))"

text \<open>
  \<open>voxel_based_decomposition\<close>. The cast \<open>(int)\<close> of a \<open>float\<close> drops the fraction.
  For a value outside the range of \<open>int\<close> the C standard leaves the result open; the
  conversion instruction of x86-64 returns the smallest \<open>int\<close>, and \<open>c_int_of_float\<close>
  does so. The grid of counters, zeroed by \<open>calloc\<close>, is
  a function from the cell to its count. \<open>triangle_voxel\<close> is the cell computed for a
  triangle, in the counting loop and again when the parts are filled.
\<close>

definition c_int_of_float :: "real \<Rightarrow> int" where
  "c_int_of_float r =
     (let t = (if r \<ge> 0 then \<lfloor>r\<rfloor> else \<lceil>r\<rceil>)
      in if - 2147483648 \<le> t \<and> t \<le> 2147483647 then t else - 2147483648)"

definition triangle_voxel :: "stl_file_t \<Rightarrow> real \<Rightarrow> nat \<Rightarrow> int \<times> int \<times> int" where
  "triangle_voxel stl voxel_size i =
     (let triangle = triangles stl ! i;
          center_x = (vertices triangle ! 0 ! 0 + vertices triangle ! 1 ! 0
                      + vertices triangle ! 2 ! 0) / 3;
          center_y = (vertices triangle ! 0 ! 1 + vertices triangle ! 1 ! 1
                      + vertices triangle ! 2 ! 1) / 3;
          center_z = (vertices triangle ! 0 ! 2 + vertices triangle ! 1 ! 2
                      + vertices triangle ! 2 ! 2) / 3
      in (c_int_of_float ((center_x - bounds stl ! 0) / voxel_size),
          c_int_of_float ((center_y - bounds stl ! 1) / voxel_size),
          c_int_of_float ((center_z - bounds stl ! 2) / voxel_size)))"

text \<open>
  The number of cells on axis \<open>k\<close>. The largest \<open>float\<close> below \<open>2\<^sup>3\<^sup>1\<close> is
  \<open>2\<^sup>3\<^sup>1 - 128\<close>, so adding 1 to a cast that is in range stays in the range of \<open>int\<close>.
\<close>

definition num_voxels :: "stl_file_t \<Rightarrow> real \<Rightarrow> nat \<Rightarrow> int" where
  "num_voxels stl voxel_size k =
     c_int_of_float ((bounds stl ! (k + 3) - bounds stl ! k) / voxel_size) + 1"

text \<open>The body of the counting loop, and the loop.\<close>

definition voxel_count_step ::
  "stl_file_t \<Rightarrow> real \<Rightarrow> (int \<times> int \<times> int \<Rightarrow> nat) \<Rightarrow> nat \<Rightarrow> (int \<times> int \<times> int \<Rightarrow> nat)" where
  "voxel_count_step stl voxel_size voxel_grid i =
     (case triangle_voxel stl voxel_size i of
        (voxel_x, voxel_y, voxel_z) \<Rightarrow>
          if voxel_x \<ge> 0 \<and> voxel_x < num_voxels stl voxel_size 0 \<and>
             voxel_y \<ge> 0 \<and> voxel_y < num_voxels stl voxel_size 1 \<and>
             voxel_z \<ge> 0 \<and> voxel_z < num_voxels stl voxel_size 2
          then voxel_grid((voxel_x, voxel_y, voxel_z) :=
                            voxel_grid (voxel_x, voxel_y, voxel_z) + 1)
          else voxel_grid)"

definition count_voxels :: "stl_file_t \<Rightarrow> real \<Rightarrow> int \<times> int \<times> int \<Rightarrow> nat" where
  "count_voxels stl voxel_size =
     foldl (voxel_count_step stl voxel_size) (\<lambda>cell. 0) [0..<num_triangles stl]"

text \<open>The body of the three nested loops over the cells \<open>(x, y, z)\<close>.\<close>

definition voxel_emit ::
  "junk_t \<Rightarrow> stl_file_t \<Rightarrow> real \<Rightarrow> nat \<Rightarrow> (int \<times> int \<times> int \<Rightarrow> nat)
     \<Rightarrow> convex_part_t convex_decomposition_t \<Rightarrow> int \<times> int \<times> int \<Rightarrow> convex_part_t convex_decomposition_t" where
  "voxel_emit junk stl voxel_size min_triangles_per_voxel voxel_grid decomp cell =
     (if voxel_grid cell \<ge> min_triangles_per_voxel
      then
        (let part = convex_part_create
                      (junk [nat (fst cell), nat (fst (snd cell)), nat (snd (snd cell))])
                      (voxel_grid cell);
             part = foldl (\<lambda>part i.
                      if triangle_voxel stl voxel_size i = cell
                      then convex_part_add_triangle part i else part)
                     part [0..<num_triangles stl]
         in if triangle_indices part \<noteq> []
            then convex_decomposition_add_part volume decomp (convex_part_compute_properties part stl)
            else decomp)
      else decomp)"

text \<open>
  The grid is allocated as \<open>num_voxels_x\<close> pointers, for each of them \<open>num_voxels_y\<close>
  pointers, and for each of those \<open>num_voxels_z\<close> counters. A negative count,
  converted to \<open>size_t\<close>, asks for more than the address space holds: the allocation
  returns NULL and so does the function (\<open>voxel_grid_alloc_fails\<close>). Every other
  allocation is taken to succeed.
\<close>

definition voxel_grid_alloc_fails :: "stl_file_t \<Rightarrow> real \<Rightarrow> bool" where
  "voxel_grid_alloc_fails stl voxel_size \<longleftrightarrow>
     num_voxels stl voxel_size 0 < 0 \<or>
     (0 < num_voxels stl voxel_size 0 \<and>
      (num_voxels stl voxel_size 1 < 0 \<or>
       (0 < num_voxels stl voxel_size 1 \<and> num_voxels stl voxel_size 2 < 0)))"

definition voxel_based_decomposition ::
  "junk_t \<Rightarrow> stl_file_t \<Rightarrow> real \<Rightarrow> nat \<Rightarrow> convex_part_t convex_decomposition_t option" where
  "voxel_based_decomposition junk stl voxel_size min_triangles_per_voxel =
     (if num_triangles stl = 0 \<or> voxel_size \<le> 0 then None
      else if voxel_grid_alloc_fails stl voxel_size then None
      else
        (let decomp = (convex_decomposition_create 100)\<lparr>strategy := DECOMP_VOXEL_BASED\<rparr>;
             voxel_grid = count_voxels stl voxel_size;
             decomp =
               foldl (\<lambda>decomp x.
                  foldl (\<lambda>decomp y.
                     foldl (\<lambda>decomp z.
                        voxel_emit junk stl voxel_size min_triangles_per_voxel voxel_grid decomp
                          (x, y, z))
                       decomp [0..num_voxels stl voxel_size 2 - 1])
                    decomp [0..num_voxels stl voxel_size 1 - 1])
                 decomp [0..num_voxels stl voxel_size 0 - 1]
         in Some (decomp\<lparr>decomposition_quality := compute_decomposition_quality volume decomp\<rparr>)))"

subsection \<open>Names for steps of the strategies\<close>

text \<open>
  \<open>whole_mesh_part\<close> is the part holding every triangle with which the approximate and
  the hierarchical strategy start, \<open>split_parts\<close> the pair of parts into which both
  split a part, and \<open>split_centroid\<close> the centroid coordinate that the split compares
  with the split value. They name expressions of the definitions above.
\<close>

definition whole_mesh_part :: "junk_t \<Rightarrow> stl_file_t \<Rightarrow> convex_part_t" where
  "whole_mesh_part junk stl =
     convex_part_compute_properties
       (foldl convex_part_add_triangle (convex_part_create (junk []) (num_triangles stl))
          [0..<num_triangles stl]) stl"

definition split_parts :: "junk_t \<Rightarrow> nat list \<Rightarrow> convex_part_t \<Rightarrow> stl_file_t \<Rightarrow> convex_part_t \<times> convex_part_t" where
  "split_parts junk path part stl =
     distribute_triangles stl (split_axis_of part)
       (split_value_of part (split_axis_of part)) (triangle_indices part)
       (convex_part_create (junk (0 # path)) (length (triangle_indices part) div 2),
        convex_part_create (junk (1 # path)) (length (triangle_indices part) div 2))"

definition split_centroid :: "stl_file_t \<Rightarrow> nat \<Rightarrow> nat \<Rightarrow> real" where
  "split_centroid stl split_axis i =
     (vertices (triangles stl ! i) ! 0 ! split_axis + vertices (triangles stl ! i) ! 1 ! split_axis
      + vertices (triangles stl ! i) ! 2 ! split_axis) / 3"

text \<open>
  For the voxel strategy, \<open>voxel_cells\<close> lists the cells of the grid in the order of
  the three nested loops over x, y and z, and \<open>voxel_bucket\<close> lists, in increasing
  order, the triangles for which \<open>triangle_voxel\<close> computes a given cell.
\<close>

definition voxel_cells :: "stl_file_t \<Rightarrow> real \<Rightarrow> (int \<times> int \<times> int) list" where
  "voxel_cells stl voxel_size =
     List.product [0..num_voxels stl voxel_size 0 - 1]
       (List.product [0..num_voxels stl voxel_size 1 - 1] [0..num_voxels stl voxel_size 2 - 1])"

definition voxel_bucket :: "stl_file_t \<Rightarrow> real \<Rightarrow> int \<times> int \<times> int \<Rightarrow> nat list" where
  "voxel_bucket stl voxel_size cell =
     filter (\<lambda>i. triangle_voxel stl voxel_size i = cell) [0..<num_triangles stl]"

subsection \<open>What the claims about decompositions say\<close>

text \<open>
  \<open>part_triangles\<close> lists the triangle indices of the parts in order, and
  \<open>stored_triangles\<close> does so for the approximate strategy, of the parts as they were
  when the pointers to them were stored.
  \<open>hull_is_empty\<close>: the hull has no vertices and no vertex array.
  \<open>population_variance\<close> is the variance of the specification: the mean of the squared
  distances from the mean. \<open>quality_as_specified\<close>: the quality stored in a
  decomposition is 0 when it has no part and otherwise \<open>1 / (1 + variance)\<close> of its
  parts' volumes, which then lies in \<open>(0, 1]\<close> and is 1 exactly when all volumes are
  equal.
\<close>

definition part_triangles :: "convex_part_t convex_decomposition_t \<Rightarrow> nat list list" where
  "part_triangles d = map triangle_indices (parts d)"

definition stored_triangles :: "part_ref convex_decomposition_t \<Rightarrow> nat list list" where
  "stored_triangles d = map (\<lambda>r. triangle_indices (ref_part r)) (parts d)"

definition hull_is_empty :: "convex_part_t \<Rightarrow> bool" where
  "hull_is_empty p \<longleftrightarrow> hull_num_vertices (part_hull p) = 0 \<and> hull_vertices (part_hull p) = None"

definition population_variance :: "real list \<Rightarrow> real" where
  "population_variance xs =
     (let mean = sum_list xs / real (length xs)
      in sum_list (map (\<lambda>x. (x - mean) * (x - mean)) xs) / real (length xs))"

definition quality_as_specified :: "convex_part_t convex_decomposition_t \<Rightarrow> bool" where
  "quality_as_specified d \<longleftrightarrow>
     decomposition_quality d =
       (if parts d = [] then 0 else 1 / (1 + population_variance (map volume (parts d)))) \<and>
     (parts d \<noteq> [] \<longrightarrow>
        0 < decomposition_quality d \<and> decomposition_quality d \<le> 1 \<and>
        (decomposition_quality d = 1 \<longleftrightarrow>
           (\<forall>p \<in> set (parts d). \<forall>p' \<in> set (parts d). volume p = volume p')))"

text \<open>
  For the voxel strategy. \<open>bounds_enclose_mesh\<close> says that the bounds of the mesh
  enclose its vertices, as they do after \<open>stl_calculate_bounds\<close>. The grid of the
  specification has its origin at the lower corner of the bounds and cells of the
  given size: the centroid of triangle \<open>i\<close> falls in cell \<open>(x, y, z)\<close> when on each
  axis it lies at or above the lower face of the cell and below the upper face
  (\<open>centroid_in_cell\<close>); \<open>cell_population\<close> lists the triangles whose centroid falls in
  a cell, in increasing order; a cell belongs to the grid when its lower corner lies
  in the bounds (\<open>cell_in_grid\<close>).
\<close>

definition bounds_enclose_mesh :: "stl_file_t \<Rightarrow> bool" where
  "bounds_enclose_mesh stl \<longleftrightarrow>
     (\<forall>i<num_triangles stl. \<forall>j<3. \<forall>k<3.
        bounds stl ! k \<le> vertices (triangles stl ! i) ! j ! k \<and>
        vertices (triangles stl ! i) ! j ! k \<le> bounds stl ! (k + 3))"

definition centroid_in_cell :: "stl_file_t \<Rightarrow> real \<Rightarrow> nat \<Rightarrow> int \<times> int \<times> int \<Rightarrow> bool" where
  "centroid_in_cell stl voxel_size i cell \<longleftrightarrow>
     (case cell of (x, y, z) \<Rightarrow>
        bounds stl ! 0 + of_int x * voxel_size \<le> centroid_coordinate stl 0 i \<and>
        centroid_coordinate stl 0 i < bounds stl ! 0 + (of_int x + 1) * voxel_size \<and>
        bounds stl ! 1 + of_int y * voxel_size \<le> centroid_coordinate stl 1 i \<and>
        centroid_coordinate stl 1 i < bounds stl ! 1 + (of_int y + 1) * voxel_size \<and>
        bounds stl ! 2 + of_int z * voxel_size \<le> centroid_coordinate stl 2 i \<and>
        centroid_coordinate stl 2 i < bounds stl ! 2 + (of_int z + 1) * voxel_size)"

definition cell_population :: "stl_file_t \<Rightarrow> real \<Rightarrow> int \<times> int \<times> int \<Rightarrow> nat list" where
  "cell_population stl voxel_size cell =
     filter (\<lambda>i. centroid_in_cell stl voxel_size i cell) [0..<num_triangles stl]"

definition cell_in_grid :: "stl_file_t \<Rightarrow> real \<Rightarrow> int \<times> int \<times> int \<Rightarrow> bool" where
  "cell_in_grid stl voxel_size cell \<longleftrightarrow>
     (case cell of (x, y, z) \<Rightarrow>
        0 \<le> x \<and> bounds stl ! 0 + of_int x * voxel_size \<le> bounds stl ! 3 \<and>
        0 \<le> y \<and> bounds stl ! 1 + of_int y * voxel_size \<le> bounds stl ! 4 \<and>
        0 \<le> z \<and> bounds stl ! 2 + of_int z * voxel_size \<le> bounds stl ! 5)"

section \<open>A concrete library sort and meshes\<close>

subsection \<open>A library sort\<close>

text \<open>
  Insertion before the first element that does not compare smaller, the elements
  being inserted from the back of the array: a rearrangement in comparator order that
  keeps equal elements in their input order.
\<close>

fun cmp_insert :: "(nat \<Rightarrow> nat \<Rightarrow> int) \<Rightarrow> nat \<Rightarrow> nat list \<Rightarrow> nat list" where
  "cmp_insert cmp x [] = [x]"
| "cmp_insert cmp x (y # ys) = (if cmp x y \<le> 0 then x # y # ys else y # cmp_insert cmp x ys)"

definition qsort_r_stable :: qsort_r_t where
  "qsort_r_stable cmp xs = foldr (cmp_insert cmp) xs []"

text \<open>Meshes for the concrete runs below.\<close>

definition mk_triangle :: "real list \<Rightarrow> real list \<Rightarrow> real list \<Rightarrow> stl_triangle_t" where
  "mk_triangle a b c = \<lparr>normal = [0, 0, 0], vertices = [a, b, c]\<rparr>"

definition slab_mesh :: stl_file_t where
  "slab_mesh =
     \<lparr>num_triangles = 4,
      triangles = [mk_triangle [10, 0, 0] [10, 10, 0] [10, 0, 10],
                   mk_triangle [0, 0, 0] [0, 10, 0] [0, 0, 10],
                   mk_triangle [4, 0, 0] [5, 10, 0] [6, 0, 10],
                   mk_triangle [0, 0, 0] [0, 10, 10] [0, 0, 10]],
      bounds = [0, 0, 0, 10, 10, 10]\<rparr>"

definition slab_mesh_tree :: bvh_tree_t where
  "slab_mesh_tree =
     \<lparr>root =
        BVH_INTERNAL [0, 0, 0, 10, 10, 10]
          (BVH_INTERNAL [0, 0, 0, 0, 10, 10]
             (BVH_LEAF [0, 0, 0, 0, 10, 10] [1]) (BVH_LEAF [0, 0, 0, 0, 10, 10] [3]))
          (BVH_INTERNAL [4, 0, 0, 10, 10, 10]
             (BVH_LEAF [4, 0, 0, 6, 10, 10] [2]) (BVH_LEAF [10, 0, 0, 10, 10, 10] [0])),
      num_nodes = 0, max_depth = 0, max_triangles_per_leaf = 1\<rparr>"

text \<open>
  A mesh of six triangles with equal centroid coordinates on each axis, and the tree
  that is built from it with leaves of one triangle.
\<close>

definition ties_mesh :: stl_file_t where
  "ties_mesh =
     \<lparr>num_triangles = 6,
      triangles = [mk_triangle [4, 0, 9] [7, 0, 9] [4, 3, 9],
                   mk_triangle [0, 6, 3] [3, 6, 3] [0, 9, 3],
                   mk_triangle [4, 3, 1] [7, 3, 1] [4, 6, 1],
                   mk_triangle [0, 1, 3] [3, 1, 3] [0, 4, 3],
                   mk_triangle [8, 4, 5] [11, 4, 5] [8, 7, 5],
                   mk_triangle [-1, 6, 3] [2, 6, 3] [-1, 9, 3]],
      bounds = [-1, 0, 1, 11, 9, 9]\<rparr>"


text \<open>
  Twelve triangles in two clusters, six in the plane \<open>x = 0\<close> and six in the plane
  \<open>x = 10\<close>. Two contents for the memory that \<open>convex_part_create\<close> leaves
  unwritten: all zero, and the values of this mesh's bounding box.
\<close>

definition two_cluster_mesh :: stl_file_t where
  "two_cluster_mesh =
     \<lparr>num_triangles = 12,
      triangles = replicate 6 (mk_triangle [0, 0, 0] [0, 1, 0] [0, 0, 1])
                  @ replicate 6 (mk_triangle [10, 0, 0] [10, 1, 0] [10, 0, 1]),
      bounds = [0, 0, 0, 10, 1, 1]\<rparr>"

definition junk_zero :: junk_t where
  "junk_zero path = [0, 0, 0, 0, 0, 0]"

definition junk_box :: junk_t where
  "junk_box path = [0, 0, 0, 10, 1, 1]"

text \<open>The parts and decompositions that the strategies return on \<open>slab_mesh\<close>.\<close>

definition empty_hull_zero :: convex_hull_t where
  "empty_hull_zero = \<lparr>hull_vertices = None, hull_num_vertices = 0, hull_capacity = 0,
            hull_bounds = [0, 0, 0, 0, 0, 0]\<rparr>"

definition slab_whole_part :: convex_part_t where
  "slab_whole_part = \<lparr>part_hull = empty_hull_zero,
         triangle_indices = [0, 1, 2, 3], part_capacity = 4,
         center = [15 / 4, 10 / 3, 25 / 6], volume = 2 / 5\<rparr>"

definition slab_near_part :: convex_part_t where
  "slab_near_part = \<lparr>part_hull = empty_hull_zero,
         triangle_indices = [1, 2, 3], part_capacity = 3,
         center = [5 / 3, 10 / 3, 40 / 9], volume = 3 / 10\<rparr>"

definition slab_far_part :: convex_part_t where
  "slab_far_part = \<lparr>part_hull = empty_hull_zero,
         triangle_indices = [0], part_capacity = 1,
         center = [10, 10 / 3, 10 / 3], volume = 1 / 10\<rparr>"

definition slab_decomposition :: "decomposition_strategy_t \<Rightarrow> nat \<Rightarrow> convex_part_t convex_decomposition_t" where
  "slab_decomposition s cap =
     \<lparr>parts = [slab_whole_part], decomp_capacity = cap, strategy = s,
      total_volume = 2 / 5, decomposition_quality = 1\<rparr>"

text \<open>
  What the approximate strategy returns on \<open>slab_mesh\<close>, given the volume \<open>v\<close> that it
  reads from the released block of its only part. \<open>stale_links\<close> is an example of what
  that block reads as: the allocator keeps the link and the key of its list of free
  blocks in the first sixteen bytes, which are the vertex pointer, the vertex count
  and the capacity of the hull, and has left the rest as it was.
\<close>

definition slab_released_decomposition :: "real \<Rightarrow> part_ref convex_decomposition_t" where
  "slab_released_decomposition v =
     \<lparr>parts = [\<lparr>ref_block = [], ref_part = slab_whole_part\<rparr>], decomp_capacity = 8,
      strategy = DECOMP_APPROX_CONVEX, total_volume = 2 / 5,
      decomposition_quality = 1 / (1 + (v - 2 / 5) * (v - 2 / 5))\<rparr>"

definition stale_links :: stale_t where
  "stale_links block =
     \<lparr>part_hull = \<lparr>hull_vertices = Some [], hull_num_vertices = 1, hull_capacity = 1,
                    hull_bounds = [0, 0, 0, 0, 0, 0]\<rparr>,
      triangle_indices = [0, 1, 2, 3], part_capacity = 4,
      center = [15 / 4, 10 / 3, 25 / 6], volume = 2 / 5\<rparr>"

definition slab_voxel_decomposition :: "convex_part_t convex_decomposition_t" where
  "slab_voxel_decomposition =
     \<lparr>parts = [slab_near_part, slab_far_part], decomp_capacity = 100,
      strategy = DECOMP_VOXEL_BASED, total_volume = 2 / 5, decomposition_quality = 100 / 101\<rparr>"

text \<open>
  A mesh whose triangles lie in four cells of a grid of cell size 5, two of them
  holding two triangles each, and what the voxel strategy returns for it with a
  threshold of 2.
\<close>

definition grid_mesh :: stl_file_t where
  "grid_mesh =
     \<lparr>num_triangles = 6,
      triangles = [mk_triangle [0, 0, 0] [3, 0, 0] [0, 3, 0],
                   mk_triangle [0, 5, 0] [3, 5, 0] [0, 8, 0],
                   mk_triangle [0, 0, 6] [3, 0, 6] [0, 3, 6],
                   mk_triangle [1, 0, 1] [4, 0, 1] [1, 3, 1],
                   mk_triangle [6, 6, 7] [9, 6, 7] [6, 9, 7],
                   mk_triangle [1, 5, 2] [4, 5, 2] [1, 8, 2]],
      bounds = [0, 0, 0, 9, 9, 7]\<rparr>"

definition grid_part_low :: convex_part_t where
  "grid_part_low = \<lparr>part_hull = empty_hull_zero,
         triangle_indices = [0, 3], part_capacity = 2,
         center = [3 / 2, 1, 1 / 2], volume = 1 / 5\<rparr>"

definition grid_part_high :: convex_part_t where
  "grid_part_high = \<lparr>part_hull = empty_hull_zero,
         triangle_indices = [1, 5], part_capacity = 2,
         center = [3 / 2, 6, 1], volume = 1 / 5\<rparr>"

definition grid_voxel_decomposition :: "convex_part_t convex_decomposition_t" where
  "grid_voxel_decomposition =
     \<lparr>parts = [grid_part_low, grid_part_high], decomp_capacity = 100,
      strategy = DECOMP_VOXEL_BASED, total_volume = 2 / 5, decomposition_quality = 1\<rparr>"

section \<open>Properties of the bounding volume tree\<close>

subsection \<open>The library sorts\<close>

lemma mset_cmp_insert: "mset (cmp_insert cmp x ys) = add_mset x (mset ys)"
  by (induction ys) auto

lemma sorted_cmp_insert:
  assumes "cmp_consistent cmp" "sorted_wrt (\<lambda>a b. cmp a b \<le> 0) ys"
  shows "sorted_wrt (\<lambda>a b. cmp a b \<le> 0) (cmp_insert cmp x ys)"
  using assms(2)
proof (induction ys)
  case Nil
  then show ?case by simp
next
  case (Cons y ys)
  show ?case
  proof (cases "cmp x y \<le> 0")
    case True
    have "cmp x z \<le> 0" if "z \<in> set ys" for z
      using assms(1) True Cons.prems that unfolding cmp_consistent_def by (metis sorted_wrt.simps(2))
    with True Cons.prems show ?thesis by simp
  next
    case False
    then have "0 < cmp x y" by simp
    then have yx: "cmp y x \<le> 0"
      using assms(1) unfolding cmp_consistent_def by (metis less_le)
    have "set (cmp_insert cmp x ys) = insert x (set ys)"
      by (metis mset_cmp_insert set_mset_add_mset_insert set_mset_mset)
    with False yx Cons show ?thesis by auto
  qed
qed

lemma qsort_r_stable_contract: "qsort_r_contract qsort_r_stable"
proof -
  have "mset (foldr (cmp_insert cmp) xs []) = mset xs" for cmp xs
    by (induction xs) (simp_all add: mset_cmp_insert)
  moreover have "sorted_wrt (\<lambda>a b. cmp a b \<le> 0) (foldr (cmp_insert cmp) xs [])"
    if "cmp_consistent cmp" for cmp xs
    by (induction xs) (simp_all add: sorted_cmp_insert that)
  ultimately show ?thesis
    by (simp add: qsort_r_contract_def qsort_r_stable_def)
qed

lemma bvh_compare_triangles_consistent: "cmp_consistent (bvh_compare_triangles stl axis)"
  by (auto simp: cmp_consistent_def bvh_compare_triangles_def Let_def split: if_splits)

lemma leaf_indices_calculate_bounds [simp]:
  "leaf_indices (bvh_calculate_bounds node stl) = leaf_indices node"
  by (cases node) simp_all

lemma mset_bvh_sort:
  "qsort_r_contract q \<Longrightarrow> mset (bvh_sort_triangles_by_axis q idxs stl axis) = mset idxs"
  by (simp add: bvh_sort_triangles_by_axis_def qsort_r_contract_def bvh_compare_triangles_consistent)

lemma length_bvh_sort:
  "qsort_r_contract q \<Longrightarrow> length (bvh_sort_triangles_by_axis q idxs stl axis) = length idxs"
  by (metis mset_bvh_sort size_mset)

lemma bvh_build_recursive_mset:
  "qsort_r_contract q \<Longrightarrow>
   bvh_build_recursive q stl idxs depth max_d max_leaf ax = Some node \<Longrightarrow>
   mset (leaf_indices node) = mset idxs"
proof (induction q stl idxs depth max_d max_leaf ax arbitrary: node rule: bvh_build_recursive.induct)
  case (1 q stl idxs depth max_d max_leaf ax)
  note contract = "1.prems"(1) and prem = "1.prems"(2)
  show ?case
  proof (cases "idxs = [] \<or> length idxs \<le> max_leaf \<or> depth \<ge> max_d")
    case True
    with prem show ?thesis
      by (auto simp: bvh_build_recursive.simps[of q stl idxs] split: if_splits)
  next
    case False
    define sorted where "sorted = bvh_sort_triangles_by_axis q idxs stl (sort_axis_of_nat (depth mod 3))"
    define mid where "mid = length idxs div 2"
    from False prem obtain l r where
      l: "bvh_build_recursive q stl (take mid sorted) (depth + 1) max_d max_leaf ax = Some l" and
      r: "bvh_build_recursive q stl (drop mid sorted) (depth + 1) max_d max_leaf ax = Some r" and
      node: "node = bvh_calculate_bounds (BVH_INTERNAL [] l r) stl"
      by (auto simp: bvh_build_recursive.simps[of q stl idxs] Let_def sorted_def mid_def
               split: option.splits)
    have "mset (leaf_indices l) = mset (take mid sorted)"
      using "1.IH"(1)[OF _ _ refl refl refl contract l[unfolded sorted_def mid_def]] False
      by (simp add: sorted_def mid_def)
    moreover have "mset (leaf_indices r) = mset (drop mid sorted)"
      using "1.IH"(2)[OF _ _ refl refl refl l[unfolded sorted_def mid_def] contract r[unfolded sorted_def mid_def]] False
      by (simp add: sorted_def mid_def)
    ultimately have "mset (leaf_indices node) = mset (take mid sorted) + mset (drop mid sorted)"
      by (simp add: node)
    also have "\<dots> = mset sorted"
      by (metis append_take_drop_id mset_append)
    finally show ?thesis
      using contract by (simp add: sorted_def mset_bvh_sort)
  qed
qed

lemma bvh_build_recursive_succeeds:
  "qsort_r_contract q \<Longrightarrow> idxs \<noteq> [] \<Longrightarrow> 1 \<le> max_leaf \<Longrightarrow>
   bvh_build_recursive q stl idxs depth max_d max_leaf ax \<noteq> None"
proof (induction q stl idxs depth max_d max_leaf ax rule: bvh_build_recursive.induct)
  case (1 q stl idxs depth max_d max_leaf ax)
  show ?case
  proof (cases "length idxs \<le> max_leaf \<or> depth \<ge> max_d")
    case True
    with "1.prems" show ?thesis
      by (simp add: bvh_build_recursive.simps[of q stl idxs])
  next
    case False
    define sorted where "sorted = bvh_sort_triangles_by_axis q idxs stl (sort_axis_of_nat (depth mod 3))"
    define mid where "mid = length idxs div 2"
    have len: "length sorted = length idxs"
      using "1.prems"(1) by (simp add: sorted_def length_bvh_sort)
    from False "1.prems" have "2 \<le> length idxs" by simp
    then have ne: "take mid sorted \<noteq> []" "drop mid sorted \<noteq> []"
      using len by (auto simp: mid_def)
    have l: "bvh_build_recursive q stl (take mid sorted) (depth + 1) max_d max_leaf ax \<noteq> None"
      using "1.IH"(1)[OF _ _ refl refl refl "1.prems"(1)] ne(1) "1.prems" False
      by (simp add: sorted_def mid_def)
    then obtain lt where lt: "bvh_build_recursive q stl (take mid sorted) (depth + 1) max_d max_leaf ax = Some lt"
      by blast
    have "bvh_build_recursive q stl (drop mid sorted) (depth + 1) max_d max_leaf ax \<noteq> None"
      using "1.IH"(2)[OF _ _ refl refl refl lt[unfolded sorted_def mid_def] "1.prems"(1)] ne(2) "1.prems" False
      by (simp add: sorted_def mid_def)
    with lt False "1.prems" show ?thesis
      by (auto simp: bvh_build_recursive.simps[of q stl idxs] Let_def sorted_def mid_def)
  qed
qed


subsection \<open>Running the model on concrete input\<close>

text \<open>
  The defining equations of the loops are unfolded only at an array that is written
  out, so that the simplifier computes with values.
\<close>

lemma upt_0_3: "[0..<3] = [0, 1, 2]"
  by (simp add: upt_rec numeral_2_eq_2)

lemma expand_bounds_Cons:
  "expand_bounds (x # xs) k val =
     (if val < (x # xs) ! k
      then (if val > ((x # xs)[k := val]) ! (k + 3) then (x # xs)[k := val, k + 3 := val]
            else (x # xs)[k := val])
      else (if val > (x # xs) ! (k + 3) then (x # xs)[k + 3 := val] else x # xs))"
  by (simp add: expand_bounds_def)

lemma expand_bounds_triangle_Cons:
  "expand_bounds_triangle (x # xs) triangle =
     foldl (\<lambda>b j. foldl (\<lambda>b k. expand_bounds b k (vertices triangle ! j ! k)) b [0, 1, 2])
       (x # xs) [0, 1, 2]"
  by (simp add: expand_bounds_triangle_def upt_0_3)

lemma expand_bounds_child_Cons:
  "expand_bounds_child (x # xs) rb =
     foldl (\<lambda>b i.
        let b = (if rb ! i < b ! i then b[i := rb ! i] else b)
        in if rb ! (i + 3) > b ! (i + 3) then b[i + 3 := rb ! (i + 3)] else b) (x # xs) [0, 1, 2]"
  by (simp add: expand_bounds_child_def upt_0_3)

lemmas bvh_eval =
  bvh_create_def bvh_build_recursive.simps bvh_sort_triangles_by_axis_def
  bvh_compare_triangles_def bvh_get_center_coordinate_def mk_triangle_def upt_rec
  sort_axis_of_nat_def expand_bounds_Cons expand_bounds_triangle_Cons expand_bounds_child_Cons
  FLT_MAX_def

lemma bvh_create_slab_mesh: "bvh_create qsort_r_stable slab_mesh 1 = Some slab_mesh_tree"
  by (simp add: bvh_eval qsort_r_stable_def slab_mesh_def slab_mesh_tree_def)

subsection \<open>Coverage\<close>

text \<open>
  C1. With a library sort that keeps its contract, \<open>bvh_create\<close> returns a tree for
  every non-empty mesh and leaf size of at least 1, and in every tree it returns the
  triangle indices of the leaves, read as a multiset, are exactly the indices
  \<open>0, \<dots>, num_triangles - 1\<close>, each once: none is missing and none is repeated.
\<close>

theorem bvh_create_leaves_cover:
  assumes "qsort_r_contract q"
  shows "(0 < num_triangles stl \<and> 1 \<le> max_leaf \<longrightarrow> bvh_create q stl max_leaf \<noteq> None) \<and>
         (\<forall>tree. bvh_create q stl max_leaf = Some tree \<longrightarrow>
            mset (leaf_indices (root tree)) = mset_set {0..<num_triangles stl} \<and>
            distinct (leaf_indices (root tree)))"
proof (intro conjI allI impI)
  assume "0 < num_triangles stl \<and> 1 \<le> max_leaf"
  then have "bvh_build_recursive q stl [0..<num_triangles stl] 0 20 max_leaf SORT_XYZ \<noteq> None"
    using assms by (intro bvh_build_recursive_succeeds) simp_all
  then show "bvh_create q stl max_leaf \<noteq> None"
    using \<open>0 < num_triangles stl \<and> 1 \<le> max_leaf\<close> by (auto simp: bvh_create_def)
next
  fix tree
  assume built: "bvh_create q stl max_leaf = Some tree"
  then have "bvh_build_recursive q stl [0..<num_triangles stl] 0 20 max_leaf SORT_XYZ = Some (root tree)"
    by (auto simp: bvh_create_def split: if_splits option.splits)
  then have m: "mset (leaf_indices (root tree)) = mset [0..<num_triangles stl]"
    using assms by (rule bvh_build_recursive_mset[rotated])
  then show "mset (leaf_indices (root tree)) = mset_set {0..<num_triangles stl}"
    by simp
  from m show "distinct (leaf_indices (root tree))"
    by (metis distinct_upt mset_eq_imp_distinct_iff)
qed

theorem bvh_create_leaves_cover_witness:
  "qsort_r_contract qsort_r_stable \<and> 0 < num_triangles slab_mesh \<and> (1::nat) \<le> 1 \<and>
   bvh_create qsort_r_stable slab_mesh 1 = Some slab_mesh_tree \<and>
   mset (leaf_indices (root slab_mesh_tree)) = mset_set {0..<num_triangles slab_mesh} \<and>
   distinct (leaf_indices (root slab_mesh_tree))"
  using bvh_create_leaves_cover[OF qsort_r_stable_contract, of slab_mesh 1]
    qsort_r_stable_contract bvh_create_slab_mesh
  by (simp add: slab_mesh_def)


subsection \<open>Bounding boxes\<close>

lemma length_expand_bounds [simp]: "length (expand_bounds b k v) = length b"
  by (simp add: expand_bounds_def Let_def)

lemma nth_expand_bounds:
  "length b = 6 \<Longrightarrow> k < 3 \<Longrightarrow>
   expand_bounds b k v ! i =
     (if i = k then min (b ! k) v else if i = k + 3 then max (b ! (k + 3)) v else b ! i)"
  by (auto simp: expand_bounds_def Let_def nth_list_update)

lemma length_expand_bounds_triangle [simp]: "length (expand_bounds_triangle b t) = length b"
  by (simp add: expand_bounds_triangle_def upt_0_3)

lemma nth_expand_bounds_vertex:
  assumes "length b = 6" "k < 3"
  shows "foldl (\<lambda>b k. expand_bounds b k (v ! k)) b [0, 1, 2] ! k = min (b ! k) (v ! k)"
    and "foldl (\<lambda>b k. expand_bounds b k (v ! k)) b [0, 1, 2] ! (k + 3) = max (b ! (k + 3)) (v ! k)"
proof -
  from assms(2) consider "k = 0" | "k = 1" | "k = 2" by linarith
  then show "foldl (\<lambda>b k. expand_bounds b k (v ! k)) b [0, 1, 2] ! k = min (b ! k) (v ! k)"
    by cases (simp_all add: nth_expand_bounds assms(1))
  from assms(2) consider "k = 0" | "k = 1" | "k = 2" by linarith
  then show "foldl (\<lambda>b k. expand_bounds b k (v ! k)) b [0, 1, 2] ! (k + 3) = max (b ! (k + 3)) (v ! k)"
    by cases (simp_all add: nth_expand_bounds assms(1))
qed

lemma length_expand_bounds_vertex [simp]:
  "length (foldl (\<lambda>b k. expand_bounds b k (v ! k)) b [0, 1, 2]) = length b"
  by simp

lemma nth_expand_bounds_triangle:
  assumes "length b = 6" "k < 3"
  shows "expand_bounds_triangle b t ! k =
           min (b ! k) (min (vertices t ! 0 ! k) (min (vertices t ! 1 ! k) (vertices t ! 2 ! k)))"
    and "expand_bounds_triangle b t ! (k + 3) =
           max (b ! (k + 3)) (max (vertices t ! 0 ! k) (max (vertices t ! 1 ! k) (vertices t ! 2 ! k)))"
proof -
  define step where "step = (\<lambda>b j. foldl (\<lambda>b k. expand_bounds b k (vertices t ! j ! k)) b [0, 1, 2])"
  have len: "length (step b j) = length b" for b j
    by (simp add: step_def)
  have lo: "step b j ! k = min (b ! k) (vertices t ! j ! k)" if "length b = 6" for b j
    using nth_expand_bounds_vertex(1)[OF that assms(2)] by (simp add: step_def)
  have hi: "step b j ! (k + 3) = max (b ! (k + 3)) (vertices t ! j ! k)" if "length b = 6" for b j
    using nth_expand_bounds_vertex(2)[OF that assms(2)] by (simp add: step_def)
  have unfold: "expand_bounds_triangle b t = step (step (step b 0) 1) 2"
    by (simp add: expand_bounds_triangle_def upt_0_3 step_def)
  show "expand_bounds_triangle b t ! k =
           min (b ! k) (min (vertices t ! 0 ! k) (min (vertices t ! 1 ! k) (vertices t ! 2 ! k)))"
    unfolding unfold by (simp add: lo len assms(1) min.assoc)
  show "expand_bounds_triangle b t ! (k + 3) =
           max (b ! (k + 3)) (max (vertices t ! 0 ! k) (max (vertices t ! 1 ! k) (vertices t ! 2 ! k)))"
    unfolding unfold by (simp add: hi len assms(1) max.assoc)
qed

lemma leaf_coords_Cons:
  "set (leaf_coords stl (i # idxs) k) =
     {vertices (triangles stl ! i) ! 0 ! k, vertices (triangles stl ! i) ! 1 ! k,
      vertices (triangles stl ! i) ! 2 ! k} \<union> set (leaf_coords stl idxs k)"
  by (auto simp: leaf_coords_def upt_0_3)

lemma leaf_coords_Nil [simp]: "leaf_coords stl [] k = []"
  by (simp add: leaf_coords_def)

lemma Min_insert_Min:
  "finite A \<Longrightarrow> A \<noteq> {} \<Longrightarrow> finite S \<Longrightarrow> Min (insert (Min A) S) = Min (A \<union> S)"
  by (cases "S = {}") (simp_all add: Min_Un)

lemma Max_insert_Max:
  "finite A \<Longrightarrow> A \<noteq> {} \<Longrightarrow> finite S \<Longrightarrow> Max (insert (Max A) S) = Max (A \<union> S)"
  by (cases "S = {}") (simp_all add: Max_Un)

lemma foldl_expand_min:
  "length b = 6 \<Longrightarrow> k < 3 \<Longrightarrow>
   length (foldl (\<lambda>b i. expand_bounds_triangle b (triangles stl ! i)) b idxs) = 6 \<and>
   foldl (\<lambda>b i. expand_bounds_triangle b (triangles stl ! i)) b idxs ! k =
     Min (insert (b ! k) (set (leaf_coords stl idxs k))) \<and>
   foldl (\<lambda>b i. expand_bounds_triangle b (triangles stl ! i)) b idxs ! (k + 3) =
     Max (insert (b ! (k + 3)) (set (leaf_coords stl idxs k)))"
proof (induction idxs arbitrary: b)
  case Nil
  then show ?case by simp
next
  case (Cons i idxs)
  define b' where "b' = expand_bounds_triangle b (triangles stl ! i)"
  define S where "S = set (leaf_coords stl idxs k)"
  define T where "T = {vertices (triangles stl ! i) ! 0 ! k, vertices (triangles stl ! i) ! 1 ! k,
      vertices (triangles stl ! i) ! 2 ! k}"
  have len: "length b' = 6" using Cons.prems by (simp add: b'_def)
  have IH: "length (foldl (\<lambda>b i. expand_bounds_triangle b (triangles stl ! i)) b' idxs) = 6"
    "foldl (\<lambda>b i. expand_bounds_triangle b (triangles stl ! i)) b' idxs ! k = Min (insert (b' ! k) S)"
    "foldl (\<lambda>b i. expand_bounds_triangle b (triangles stl ! i)) b' idxs ! (k + 3) =
       Max (insert (b' ! (k + 3)) S)"
    using Cons.IH[OF len Cons.prems(2)] by (simp_all add: S_def)
  have fin: "finite S" "finite T" "finite (insert (b ! k) T)" "finite (insert (b ! (k + 3)) T)"
    by (simp_all add: S_def T_def)
  have split: "set (leaf_coords stl (i # idxs) k) = T \<union> S"
    by (simp add: leaf_coords_Cons S_def T_def)
  have "b' ! k = Min (insert (b ! k) T)"
    using nth_expand_bounds_triangle(1)[OF Cons.prems] by (simp add: b'_def T_def min.assoc)
  then have lo: "Min (insert (b' ! k) S) = Min (insert (b ! k) (T \<union> S))"
    using Min_insert_Min[OF fin(3) _ fin(1)] by simp
  have "b' ! (k + 3) = Max (insert (b ! (k + 3)) T)"
    using nth_expand_bounds_triangle(2)[OF Cons.prems] by (simp add: b'_def T_def max.assoc)
  then have hi: "Max (insert (b' ! (k + 3)) S) = Max (insert (b ! (k + 3)) (T \<union> S))"
    using Max_insert_Max[OF fin(4) _ fin(1)] by simp
  have "foldl (\<lambda>b i. expand_bounds_triangle b (triangles stl ! i)) b (i # idxs) =
        foldl (\<lambda>b i. expand_bounds_triangle b (triangles stl ! i)) b' idxs"
    by (simp add: b'_def)
  then show ?case
    using IH lo hi unfolding split by simp
qed

lemma leaf_bounds_exact:
  assumes "idxs \<noteq> []" "k < 3"
    and fin: "\<forall>x \<in> set (leaf_coords stl idxs k). - FLT_MAX \<le> x \<and> x \<le> FLT_MAX"
  shows "foldl (\<lambda>b i. expand_bounds_triangle b (triangles stl ! i))
           [FLT_MAX, FLT_MAX, FLT_MAX, - FLT_MAX, - FLT_MAX, - FLT_MAX] idxs ! k =
         Min (set (leaf_coords stl idxs k))"
    and "foldl (\<lambda>b i. expand_bounds_triangle b (triangles stl ! i))
           [FLT_MAX, FLT_MAX, FLT_MAX, - FLT_MAX, - FLT_MAX, - FLT_MAX] idxs ! (k + 3) =
         Max (set (leaf_coords stl idxs k))"
proof -
  let ?b0 = "[FLT_MAX, FLT_MAX, FLT_MAX, - FLT_MAX, - FLT_MAX, - FLT_MAX]"
  let ?S = "set (leaf_coords stl idxs k)"
  have ne: "?S \<noteq> {}" "finite ?S"
    using assms(1) by (cases idxs) (simp_all add: leaf_coords_Cons)
  have b0: "?b0 ! k = FLT_MAX" "?b0 ! (k + 3) = - FLT_MAX"
    using assms(2) by (auto simp: nth_Cons' numeral_eq_Suc less_Suc_eq)
  have "Min (insert FLT_MAX ?S) = Min ?S"
    using ne fin by (simp add: min_absorb2)
  moreover have "Max (insert (- FLT_MAX) ?S) = Max ?S"
    using ne fin by (simp add: max_absorb2)
  ultimately show
    "foldl (\<lambda>b i. expand_bounds_triangle b (triangles stl ! i)) ?b0 idxs ! k = Min ?S"
    "foldl (\<lambda>b i. expand_bounds_triangle b (triangles stl ! i)) ?b0 idxs ! (k + 3) = Max ?S"
    using foldl_expand_min[of ?b0 k stl idxs] assms(2) b0 by simp_all
qed

lemma expand_bounds_child_exact:
  assumes "length b = 6"
  shows "length (expand_bounds_child b rb) = 6"
    and "k < 3 \<Longrightarrow> expand_bounds_child b rb ! k = min (b ! k) (rb ! k)"
    and "k < 3 \<Longrightarrow> expand_bounds_child b rb ! (k + 3) = max (b ! (k + 3)) (rb ! (k + 3))"
proof -
  show "length (expand_bounds_child b rb) = 6"
    using assms by (simp add: expand_bounds_child_def upt_0_3 Let_def)
  assume "k < 3"
  then consider "k = 0" | "k = 1" | "k = 2" by linarith
  then show "expand_bounds_child b rb ! k = min (b ! k) (rb ! k)"
    using assms by cases (auto simp: expand_bounds_child_def upt_0_3 Let_def nth_list_update)
next
  assume "k < 3"
  then consider "k = 0" | "k = 1" | "k = 2" by linarith
  then show "expand_bounds_child b rb ! (k + 3) = max (b ! (k + 3)) (rb ! (k + 3))"
    using assms by cases (auto simp: expand_bounds_child_def upt_0_3 Let_def nth_list_update)
qed


lemma bounds_exact_length: "bounds_exact stl node \<Longrightarrow> length (node_bounds node) = 6"
  by (cases node) simp_all

lemma leaf_coords_finite:
  assumes "mesh_finite stl" "set idxs \<subseteq> {0..<num_triangles stl}" "k < 3"
  shows "\<forall>x \<in> set (leaf_coords stl idxs k). - FLT_MAX \<le> x \<and> x \<le> FLT_MAX"
  using assms unfolding mesh_finite_def leaf_coords_def by fastforce

lemma bvh_calculate_bounds_leaf_exact:
  assumes "mesh_finite stl" "set idxs \<subseteq> {0..<num_triangles stl}" "idxs \<noteq> []"
  shows "bounds_exact stl (bvh_calculate_bounds (BVH_LEAF b idxs) stl)"
proof -
  let ?b = "foldl (\<lambda>b i. expand_bounds_triangle b (triangles stl ! i))
              [FLT_MAX, FLT_MAX, FLT_MAX, - FLT_MAX, - FLT_MAX, - FLT_MAX] idxs"
  have "length ?b = 6"
    using foldl_expand_min[of "[FLT_MAX, FLT_MAX, FLT_MAX, - FLT_MAX, - FLT_MAX, - FLT_MAX]" 0 stl idxs]
    by simp
  moreover have "?b ! k = Min (set (leaf_coords stl idxs k)) \<and>
                 ?b ! (k + 3) = Max (set (leaf_coords stl idxs k))" if "k < 3" for k
    using leaf_bounds_exact[OF assms(3) that leaf_coords_finite[OF assms(1,2) that]] by simp
  ultimately show ?thesis
    using assms(3) by simp
qed

lemma bvh_calculate_bounds_internal_exact:
  assumes "bounds_exact stl l" "bounds_exact stl r"
  shows "bounds_exact stl (bvh_calculate_bounds (BVH_INTERNAL b l r) stl)"
  using assms expand_bounds_child_exact[OF bounds_exact_length[OF assms(1)], where rb = "node_bounds r"]
  by simp

lemma set_bvh_sort:
  "qsort_r_contract q \<Longrightarrow> set (bvh_sort_triangles_by_axis q idxs stl axis) = set idxs"
  by (metis mset_bvh_sort set_mset_mset)

lemma bvh_build_recursive_bounds:
  "qsort_r_contract q \<Longrightarrow> mesh_finite stl \<Longrightarrow> set idxs \<subseteq> {0..<num_triangles stl} \<Longrightarrow>
   bvh_build_recursive q stl idxs depth max_d max_leaf ax = Some node \<Longrightarrow>
   bounds_exact stl node"
proof (induction q stl idxs depth max_d max_leaf ax arbitrary: node rule: bvh_build_recursive.induct)
  case (1 q stl idxs depth max_d max_leaf ax)
  note contract = "1.prems"(1) and fin = "1.prems"(2) and sub = "1.prems"(3) and prem = "1.prems"(4)
  show ?case
  proof (cases "idxs = [] \<or> length idxs \<le> max_leaf \<or> depth \<ge> max_d")
    case True
    with prem have "idxs \<noteq> []" "node = bvh_calculate_bounds (BVH_LEAF [] idxs) stl"
      by (auto simp: bvh_build_recursive.simps[of q stl idxs] split: if_splits)
    then show ?thesis
      using bvh_calculate_bounds_leaf_exact[OF fin sub] by simp
  next
    case False
    define sorted where "sorted = bvh_sort_triangles_by_axis q idxs stl (sort_axis_of_nat (depth mod 3))"
    define mid where "mid = length idxs div 2"
    from False prem obtain l r where
      l: "bvh_build_recursive q stl (take mid sorted) (depth + 1) max_d max_leaf ax = Some l" and
      r: "bvh_build_recursive q stl (drop mid sorted) (depth + 1) max_d max_leaf ax = Some r" and
      node: "node = bvh_calculate_bounds (BVH_INTERNAL [] l r) stl"
      by (auto simp: bvh_build_recursive.simps[of q stl idxs] Let_def sorted_def mid_def
               split: option.splits)
    have "set sorted = set idxs"
      using contract by (simp add: sorted_def set_bvh_sort)
    then have subl: "set (take mid sorted) \<subseteq> {0..<num_triangles stl}"
      and subr: "set (drop mid sorted) \<subseteq> {0..<num_triangles stl}"
      using sub set_take_subset[of mid sorted] set_drop_subset[of mid sorted] by auto
    have "bounds_exact stl l"
      using "1.IH"(1)[OF _ _ refl refl refl contract fin _ l[unfolded sorted_def mid_def]] False subl
      by (simp add: sorted_def mid_def)
    moreover have "bounds_exact stl r"
      using "1.IH"(2)[OF _ _ refl refl refl l[unfolded sorted_def mid_def] contract fin _
                        r[unfolded sorted_def mid_def]] False subr
      by (simp add: sorted_def mid_def)
    ultimately show ?thesis
      unfolding node by (rule bvh_calculate_bounds_internal_exact)
  qed
qed

lemma mesh_finite_slab_mesh: "mesh_finite slab_mesh"
  by (simp add: mesh_finite_def slab_mesh_def mk_triangle_def FLT_MAX_def numeral_eq_Suc
      All_less_Suc)

text \<open>
  C5. With a library sort that keeps its contract and a mesh of finite floats, every
  node of the tree that \<open>bvh_create\<close> returns has the exact box: an internal node the
  per-axis minimum of its children's minima and maximum of their maxima, a leaf the
  per-axis minimum and maximum over all vertices of its triangles.
\<close>

theorem bvh_create_bounds_exact:
  assumes "qsort_r_contract q" "mesh_finite stl" "bvh_create q stl max_leaf = Some tree"
  shows "bounds_exact stl (root tree)"
proof -
  from assms(3) have
    "bvh_build_recursive q stl [0..<num_triangles stl] 0 20 max_leaf SORT_XYZ = Some (root tree)"
    by (auto simp: bvh_create_def split: if_splits option.splits)
  with assms(1,2) show ?thesis
    by (intro bvh_build_recursive_bounds[where idxs = "[0..<num_triangles stl]"]) simp_all
qed

theorem bvh_create_bounds_exact_witness:
  "qsort_r_contract qsort_r_stable \<and> mesh_finite slab_mesh \<and>
   bvh_create qsort_r_stable slab_mesh 1 = Some slab_mesh_tree \<and>
   bounds_exact slab_mesh (root slab_mesh_tree)"
  using bvh_create_bounds_exact[OF qsort_r_stable_contract mesh_finite_slab_mesh bvh_create_slab_mesh]
    qsort_r_stable_contract mesh_finite_slab_mesh bvh_create_slab_mesh
  by simp


subsection \<open>The order of the candidates at a split\<close>




lemma stable_qsort_r_contract: "stable_qsort_r q \<Longrightarrow> qsort_r_contract q"
  by (simp add: stable_qsort_r_def qsort_r_contract_def)



lemma stable_splits_calculate_bounds [simp]:
  "stable_splits stl idxs depth (bvh_calculate_bounds node stl) = stable_splits stl idxs depth node"
  by (cases node) simp_all



lemma ties_mesh_centroids:
  "map (\<lambda>i. map (\<lambda>k. centroid_coordinate ties_mesh k i) [0, 1, 2]) [0, 1, 2, 3, 4, 5]
     = [[5, 1, 9], [1, 7, 3], [5, 4, 1], [1, 2, 3], [9, 5, 5], [0, 7, 3]]"
  by (simp add: centroid_coordinate_def ties_mesh_def mk_triangle_def)




section \<open>Properties of the partition index\<close>

text \<open>
  Partition \<open>j\<close> of \<open>n\<close> is matched by the half-open range from
  \<open>min_x + j * w\<close> to \<open>min_x + (j + 1) * w\<close>, the last one like the others. A centroid
  on the boundary between two partitions is matched by the upper one; a centroid at
  the mesh's maximum X is matched by none and keeps the initial id 0. The lemmas of
  this section are about exact arithmetic: a boundary that is rounded when it is
  computed in \<open>float\<close> need not be the one of the lemma, and the run on \<open>slab_mesh\<close>
  below, whose numbers are all computed exactly, is the one that is claimed.
\<close>

lemma length_partition_slab [simp]: "length (partition_slab stl w i) = 6"
  by (simp add: partition_slab_def)

lemma length_partition_rows:
  "length (concat (map (partition_slab stl w) [0..<n])) = n * 6"
  by (induction n) simp_all

lemma nth_partition_rows:
  "j < n \<Longrightarrow> k < 6 \<Longrightarrow>
   concat (map (partition_slab stl w) [0..<n]) ! (j * 6 + k) = partition_slab stl w j ! k"
proof (induction n)
  case 0
  then show ?case by simp
next
  case (Suc n)
  show ?case
  proof (cases "j < n")
    case True
    then have "j * 6 + k < n * 6" using Suc.prems(2) by simp
    with True Suc show ?thesis
      by (simp add: nth_append length_partition_rows)
  next
    case False
    with Suc.prems have "j = n" by simp
    then show ?thesis
      using Suc.prems(2) by (simp add: nth_append length_partition_rows)
  qed
qed

lemma partition_rows_lo:
  "j < n \<Longrightarrow> concat (map (partition_slab stl w) [0..<n]) ! (j * 6) = bounds stl ! 0 + real j * w"
  using nth_partition_rows[of j n 0 stl w] by (simp add: partition_slab_def)

lemma partition_rows_hi:
  "j < n \<Longrightarrow> concat (map (partition_slab stl w) [0..<n]) ! (j * 6 + 3)
     = bounds stl ! 0 + real (j + 1) * w"
  using nth_partition_rows[of j n 3 stl w] by (simp add: partition_slab_def)

lemma find_partition_none:
  "\<forall>j \<in> set js. \<not> (pb ! (j * 6) \<le> c \<and> c < pb ! (j * 6 + 3)) \<Longrightarrow> find_partition pb c js = 0"
  by (induction js) auto

lemma find_partition_first:
  "\<forall>j \<in> set js. \<not> (pb ! (j * 6) \<le> c \<and> c < pb ! (j * 6 + 3)) \<Longrightarrow>
   pb ! (i * 6) \<le> c \<and> c < pb ! (i * 6 + 3) \<Longrightarrow>
   find_partition pb c (js @ i # ks) = i"
  by (induction js) auto

lemma find_partition_interior_boundary:
  assumes "0 < w" "i < n"
  shows "find_partition (concat (map (partition_slab stl w) [0..<n]))
           (bounds stl ! 0 + real i * w) [0..<n] = i"
proof -
  let ?pb = "concat (map (partition_slab stl w) [0..<n])"
  let ?c = "bounds stl ! 0 + real i * w"
  have split: "[0..<n] = [0..<i] @ i # [Suc i..<n]"
    proof -
    have "[0..<i + (n - i)] = [0..<i] @ [i..<i + (n - i)]"
      by (rule upt_add_eq_append) simp
    then show ?thesis
      using assms(2) by (simp add: upt_conv_Cons)
  qed
  have "\<not> (?pb ! (j * 6) \<le> ?c \<and> ?c < ?pb ! (j * 6 + 3))" if "j \<in> set [0..<i]" for j
  proof -
    from that assms(2) have "j < n" "j + 1 \<le> i" by simp_all
    then have "real (j + 1) * w \<le> real i * w"
      using assms(1) by (metis mult_right_mono less_imp_le of_nat_le_iff)
    with \<open>j < n\<close> show ?thesis by (simp add: partition_rows_hi)
  qed
  moreover have "?pb ! (i * 6) \<le> ?c \<and> ?c < ?pb ! (i * 6 + 3)"
    using assms by (simp add: partition_rows_lo partition_rows_hi distrib_right)
  ultimately show ?thesis
    unfolding split[symmetric] using find_partition_first[of "[0..<i]" ?pb ?c i "[Suc i..<n]"] split
    by simp
qed

lemma find_partition_max_boundary:
  assumes "0 < w"
  shows "find_partition (concat (map (partition_slab stl w) [0..<n]))
           (bounds stl ! 0 + real n * w) [0..<n] = 0"
proof (rule find_partition_none, rule ballI)
  fix j assume "j \<in> set [0..<n]"
  then have "j < n" "j + 1 \<le> n" by simp_all
  then have "real (j + 1) * w \<le> real n * w"
    using assms by (metis mult_right_mono less_imp_le of_nat_le_iff)
  with \<open>j < n\<close> show "\<not> (concat (map (partition_slab stl w) [0..<n]) ! (j * 6) \<le> bounds stl ! 0 + real n * w \<and>
            bounds stl ! 0 + real n * w < concat (map (partition_slab stl w) [0..<n]) ! (j * 6 + 3))"
    by (simp add: partition_rows_hi)
qed

lemma spatial_partition_ids:
  assumes "spatial_partition_create q stl n ax = Some p" "i < num_triangles stl"
  shows "partition_ids p ! i =
           find_partition (concat (map (partition_slab stl ((bounds stl ! 3 - bounds stl ! 0) / real n)) [0..<n]))
             (centroid_x stl i) [0..<n]"
  using assms
  by (auto simp: spatial_partition_create_def Let_def centroid_x_def split: if_splits option.splits)

lemma spatial_partition_interior_boundary:
  assumes "spatial_partition_create q stl n ax = Some p" "i < num_triangles stl"
    and "bounds stl ! 0 < bounds stl ! 3" "k < n"
    and "centroid_x stl i = bounds stl ! 0 + real k * ((bounds stl ! 3 - bounds stl ! 0) / real n)"
  shows "partition_ids p ! i = k"
proof -
  define w where "w = (bounds stl ! 3 - bounds stl ! 0) / real n"
  from assms(1) have "0 < n" by (auto simp: spatial_partition_create_def split: if_splits)
  then have "0 < w" using assms(3) by (simp add: w_def)
  then have "find_partition (concat (map (partition_slab stl w) [0..<n]))
               (bounds stl ! 0 + real k * w) [0..<n] = k"
    using assms(4) by (rule find_partition_interior_boundary)
  then show ?thesis
    unfolding spatial_partition_ids[OF assms(1,2)] assms(5) w_def .
qed

lemma spatial_partition_max_boundary:
  assumes "spatial_partition_create q stl n ax = Some p" "i < num_triangles stl"
    and "bounds stl ! 0 < bounds stl ! 3" "centroid_x stl i = bounds stl ! 3"
  shows "partition_ids p ! i = 0"
proof -
  define w where "w = (bounds stl ! 3 - bounds stl ! 0) / real n"
  from assms(1) have n: "0 < n" by (auto simp: spatial_partition_create_def split: if_splits)
  then have w: "0 < w" using assms(3) by (simp add: w_def)
  have top: "bounds stl ! 3 = bounds stl ! 0 + real n * w"
    using n by (simp add: w_def)
  have "find_partition (concat (map (partition_slab stl w) [0..<n]))
          (bounds stl ! 0 + real n * w) [0..<n] = 0"
    using w by (rule find_partition_max_boundary)
  then have "find_partition (concat (map (partition_slab stl w) [0..<n])) (bounds stl ! 3) [0..<n] = 0"
    unfolding top[symmetric] .
  then show ?thesis
    unfolding spatial_partition_ids[OF assms(1,2)] assms(4) w_def .
qed


lemma bvh_create_slab_mesh_10:
  "bvh_create qsort_r_stable slab_mesh 10 =
     Some \<lparr>root = BVH_LEAF [0, 0, 0, 10, 10, 10] [0, 1, 2, 3], num_nodes = 0, max_depth = 0,
            max_triangles_per_leaf = 10\<rparr>"
  by (simp add: bvh_eval slab_mesh_def)

text \<open>
  C4, on the mesh \<open>slab_mesh\<close> with X from 0 to 10 and two partitions: triangle 2, whose
  centroid X is 5, the interior boundary, gets partition 1, and triangle 0, whose
  centroid X is 10, the maximum, gets partition 0 (the claim says the last partition, 1).
\<close>

theorem spatial_partition_max_x_goes_to_first:
  "map_option partition_bounds (spatial_partition_create qsort_r_stable slab_mesh 2 SORT_XYZ)
     = Some [0, 0, 0, 5, 10, 10, 5, 0, 0, 10, 10, 10] \<and>
   map_option partition_ids (spatial_partition_create qsort_r_stable slab_mesh 2 SORT_XYZ)
     = Some [0, 0, 1, 0]"
proof -
  have m: "num_triangles slab_mesh = 4" "bounds slab_mesh = [0, 0, 0, 10, 10, 10]"
    "triangles slab_mesh = [mk_triangle [10, 0, 0] [10, 10, 0] [10, 0, 10],
                   mk_triangle [0, 0, 0] [0, 10, 0] [0, 0, 10],
                   mk_triangle [4, 0, 0] [5, 10, 0] [6, 0, 10],
                   mk_triangle [0, 0, 0] [0, 10, 10] [0, 0, 10]]"
    by (simp_all add: slab_mesh_def)
  show ?thesis
    by (simp add: spatial_partition_create_def bvh_create_slab_mesh_10 partition_slab_def
        m mk_triangle_def upt_rec Let_def)
qed



section \<open>Properties of the convex decomposition\<close>

text \<open>
  In the hierarchical and the voxel strategy the decomposition holds the parts
  themselves, which stand for pointers to blocks that stay allocated. In the
  approximate strategy it holds pointers with their blocks, and the set of released
  blocks is carried along.
\<close>

subsection \<open>Parts\<close>

lemma part_hull_add_triangle [simp]:
  "part_hull (convex_part_add_triangle p i) = part_hull p"
  by (simp add: convex_part_add_triangle_def Let_def)

lemma part_hull_compute_properties [simp]:
  "part_hull (convex_part_compute_properties p stl) = part_hull p"
  by (simp add: convex_part_compute_properties_def Let_def split: prod.splits)

lemma triangle_indices_compute_properties [simp]:
  "triangle_indices (convex_part_compute_properties p stl) = triangle_indices p"
  by (simp add: convex_part_compute_properties_def Let_def split: prod.splits)

lemma volume_compute_properties:
  "triangle_indices p \<noteq> [] \<Longrightarrow>
   volume (convex_part_compute_properties p stl) = real (length (triangle_indices p)) * (1 / 10)"
  by (simp add: convex_part_compute_properties_def Let_def split: prod.splits)

lemma part_hull_foldl_add [simp]:
  "part_hull (foldl convex_part_add_triangle p xs) = part_hull p"
  by (induction xs arbitrary: p) simp_all

lemma add_triangle_stores:
  "0 < part_capacity p \<Longrightarrow>
   triangle_indices (convex_part_add_triangle p i) = triangle_indices p @ [i] \<and>
   0 < part_capacity (convex_part_add_triangle p i)"
  by (simp add: convex_part_add_triangle_def Let_def)

lemma foldl_add_triangle_stores:
  "0 < part_capacity p \<Longrightarrow>
   triangle_indices (foldl convex_part_add_triangle p xs) = triangle_indices p @ xs \<and>
   0 < part_capacity (foldl convex_part_add_triangle p xs)"
proof (induction xs arbitrary: p)
  case Nil
  then show ?case by simp
next
  case (Cons x xs)
  from add_triangle_stores[OF Cons.prems, of x] Cons.IH[of "convex_part_add_triangle p x"]
  show ?case by simp
qed

lemma part_hull_create [simp]:
  "hull_num_vertices (part_hull (convex_part_create j c)) = 0"
  "hull_vertices (part_hull (convex_part_create j c)) = None"
  "triangle_indices (convex_part_create j c) = []"
  "part_capacity (convex_part_create j c) = c"
  by (simp_all add: convex_part_create_def)

lemma parts_add_part:
  "set (parts (convex_decomposition_add_part rv d p)) \<subseteq> insert p (set (parts d))"
  by (auto simp: convex_decomposition_add_part_def Let_def)

lemma compute_part_concavity_empty_hull:
  "hull_num_vertices (part_hull p) < 4 \<Longrightarrow> compute_part_concavity p stl = 0"
  by (simp add: compute_part_concavity_def compute_volume_def)

lemma whole_mesh_part_props:
  assumes "0 < num_triangles stl"
  shows "triangle_indices (whole_mesh_part junk stl) = [0..<num_triangles stl]"
    and "hull_num_vertices (part_hull (whole_mesh_part junk stl)) = 0"
    and "hull_vertices (part_hull (whole_mesh_part junk stl)) = None"
    and "compute_part_concavity (whole_mesh_part junk stl) stl = 0"
proof -
  show t: "triangle_indices (whole_mesh_part junk stl) = [0..<num_triangles stl]"
    using foldl_add_triangle_stores[of "convex_part_create (junk []) (num_triangles stl)"
        "[0..<num_triangles stl]"] assms
    by (simp add: whole_mesh_part_def)
  show n: "hull_num_vertices (part_hull (whole_mesh_part junk stl)) = 0"
    and "hull_vertices (part_hull (whole_mesh_part junk stl)) = None"
    by (simp_all add: whole_mesh_part_def)
  from n show "compute_part_concavity (whole_mesh_part junk stl) stl = 0"
    by (simp add: compute_part_concavity_empty_hull)
qed


subsection \<open>The split\<close>

lemma distribute_triangles_Cons:
  "distribute_triangles stl ax sv (i # idxs) (l, r) =
    (if split_centroid stl ax i < sv
     then distribute_triangles stl ax sv idxs (convex_part_add_triangle l i, r)
     else distribute_triangles stl ax sv idxs (l, convex_part_add_triangle r i))"
  by (simp add: distribute_triangles_def Let_def split_centroid_def)

lemma distribute_triangles_Nil [simp]: "distribute_triangles stl ax sv [] lr = lr"
  by (simp add: distribute_triangles_def)

lemma distribute_triangles_indices:
  assumes "0 < part_capacity l" "0 < part_capacity r"
  shows "triangle_indices (fst (distribute_triangles stl ax sv idxs (l, r)))
           = triangle_indices l @ filter (\<lambda>i. split_centroid stl ax i < sv) idxs \<and>
         triangle_indices (snd (distribute_triangles stl ax sv idxs (l, r)))
           = triangle_indices r @ filter (\<lambda>i. \<not> split_centroid stl ax i < sv) idxs \<and>
         part_hull (fst (distribute_triangles stl ax sv idxs (l, r))) = part_hull l \<and>
         part_hull (snd (distribute_triangles stl ax sv idxs (l, r))) = part_hull r"
  using assms
proof (induction idxs arbitrary: l r)
  case Nil
  then show ?case by simp
next
  case (Cons i idxs)
  show ?case
  proof (cases "split_centroid stl ax i < sv")
    case True
    with Cons.IH[of "convex_part_add_triangle l i" r] add_triangle_stores[OF Cons.prems(1), of i]
      Cons.prems(2)
    show ?thesis by (simp add: distribute_triangles_Cons)
  next
    case False
    with Cons.IH[of l "convex_part_add_triangle r i"] add_triangle_stores[OF Cons.prems(2), of i]
      Cons.prems(1)
    show ?thesis by (simp add: distribute_triangles_Cons)
  qed
qed

lemma split_parts_indices:
  assumes "2 \<le> length (triangle_indices part)"
  shows "triangle_indices (fst (split_parts junk path part stl))
           = filter (\<lambda>i. split_centroid stl (split_axis_of part) i
                            < split_value_of part (split_axis_of part)) (triangle_indices part)"
    and "triangle_indices (snd (split_parts junk path part stl))
           = filter (\<lambda>i. \<not> split_centroid stl (split_axis_of part) i
                            < split_value_of part (split_axis_of part)) (triangle_indices part)"
    and "part_hull (fst (split_parts junk path part stl))
           = part_hull (convex_part_create (junk (0 # path)) (length (triangle_indices part) div 2))"
    and "part_hull (snd (split_parts junk path part stl))
           = part_hull (convex_part_create (junk (1 # path)) (length (triangle_indices part) div 2))"
proof -
  have cap: "0 < length (triangle_indices part) div 2" using assms by simp
  note d = distribute_triangles_indices[of
      "convex_part_create (junk (0 # path)) (length (triangle_indices part) div 2)"
      "convex_part_create (junk (1 # path)) (length (triangle_indices part) div 2)"
      stl "split_axis_of part" "split_value_of part (split_axis_of part)" "triangle_indices part"]
  from d cap show
    "triangle_indices (fst (split_parts junk path part stl))
           = filter (\<lambda>i. split_centroid stl (split_axis_of part) i
                            < split_value_of part (split_axis_of part)) (triangle_indices part)"
    "triangle_indices (snd (split_parts junk path part stl))
           = filter (\<lambda>i. \<not> split_centroid stl (split_axis_of part) i
                            < split_value_of part (split_axis_of part)) (triangle_indices part)"
    "part_hull (fst (split_parts junk path part stl))
           = part_hull (convex_part_create (junk (0 # path)) (length (triangle_indices part) div 2))"
    "part_hull (snd (split_parts junk path part stl))
           = part_hull (convex_part_create (junk (1 # path)) (length (triangle_indices part) div 2))"
    by (simp_all add: split_parts_def)
qed

lemma distribute_triangles_inv:
  assumes "\<And>p i. Q p \<Longrightarrow> Q (convex_part_add_triangle p i)" "Q l" "Q r"
  shows "Q (fst (distribute_triangles stl ax sv idxs (l, r))) \<and>
         Q (snd (distribute_triangles stl ax sv idxs (l, r)))"
  using assms(2,3)
proof (induction idxs arbitrary: l r)
  case Nil
  then show ?case by (simp add: distribute_triangles_def)
next
  case (Cons i idxs)
  have step: "distribute_triangles stl ax sv (i # idxs) (l, r) =
    (if (vertices (triangles stl ! i) ! 0 ! ax + vertices (triangles stl ! i) ! 1 ! ax
           + vertices (triangles stl ! i) ! 2 ! ax) / 3 < sv
     then distribute_triangles stl ax sv idxs (convex_part_add_triangle l i, r)
     else distribute_triangles stl ax sv idxs (l, convex_part_add_triangle r i))"
    by (simp add: distribute_triangles_def Let_def)
  show ?case
    unfolding step using Cons.IH Cons.prems assms(1) by simp
qed

lemma split_parts_inv:
  assumes "\<And>j c. Q (convex_part_create j c)" "\<And>p i. Q p \<Longrightarrow> Q (convex_part_add_triangle p i)"
  shows "Q (fst (split_parts junk path part stl))" "Q (snd (split_parts junk path part stl))"
  using distribute_triangles_inv[where Q = Q, OF assms(2) assms(1) assms(1)]
  by (simp_all add: split_parts_def)

lemma split_axis_value_zero:
  assumes "hull_bounds (part_hull part) = [0, 0, 0, 0, 0, 0]"
  shows "split_axis_of part = 0" "split_value_of part 0 = 0"
  using assms by (simp_all add: split_axis_of_def split_value_of_def)

lemma split_axis_value_box:
  assumes "hull_bounds (part_hull part) = [0, 0, 0, 10, 1, 1]"
  shows "split_axis_of part = 0" "split_value_of part 0 = 5"
  using assms by (simp_all add: split_axis_of_def split_value_of_def)


subsection \<open>The recursive strategies, unfolded\<close>

lemma approximate_decompose_part_unfold:
  "approximate_decompose_part junk path part stl decomp released max_parts tol =
     (if triangle_indices part = [] then Some (decomp, released)
      else if length (parts decomp) \<ge> max_parts
        then Some (convex_decomposition_add_part (\<lambda>r. volume (ref_part r)) decomp
                     \<lparr>ref_block = path, ref_part = part\<rparr>, released)
      else if compute_part_concavity part stl \<le> tol \<or> length (triangle_indices part) < 10
        then Some (convex_decomposition_add_part (\<lambda>r. volume (ref_part r)) decomp
                     \<lparr>ref_block = path, ref_part = part\<rparr>, released)
      else
        Option.bind
          (if triangle_indices (fst (split_parts junk path part stl)) \<noteq> []
           then approximate_decompose_part junk (0 # path)
                  (convex_part_compute_properties (fst (split_parts junk path part stl)) stl)
                  stl decomp released max_parts tol
           else Some (decomp, released))
          (\<lambda>s1.
             Option.bind
               (if triangle_indices (snd (split_parts junk path part stl)) \<noteq> []
                then approximate_decompose_part junk (1 # path)
                       (convex_part_compute_properties (snd (split_parts junk path part stl)) stl)
                       stl (fst s1) (snd s1) max_parts tol
                else Some s1)
               (\<lambda>s2. Some (fst s2,
                             convex_part_free (convex_part_free (snd s2) (0 # path)) (1 # path)))))"
  by (subst approximate_decompose_part.simps)
     (simp only: split_parts_def split_def prod.collapse)

lemma hierarchical_split_part_unfold:
  "hierarchical_split_part junk path part stl decomp depth max_d thr =
     (if depth \<ge> max_d \<or> length (triangle_indices part) < 10
      then convex_decomposition_add_part volume decomp
             (convex_part_compute_properties
                (foldl convex_part_add_triangle
                   (convex_part_create (junk (2 # path)) (length (triangle_indices part)))
                   (triangle_indices part)) stl)
      else
        (let decomp =
               (if triangle_indices (fst (split_parts junk path part stl)) \<noteq> []
                then hierarchical_split_part junk (0 # path)
                       (convex_part_compute_properties (fst (split_parts junk path part stl)) stl)
                       stl decomp (depth + 1) max_d thr
                else decomp)
         in if triangle_indices (snd (split_parts junk path part stl)) \<noteq> []
            then hierarchical_split_part junk (1 # path)
                   (convex_part_compute_properties (snd (split_parts junk path part stl)) stl)
                   stl decomp (depth + 1) max_d thr
            else decomp))"
  by (subst hierarchical_split_part.simps) (simp only: split_parts_def case_prod_beta Let_def)

lemma approximate_decompose_part_induct:
  assumes step: "\<And>rec junk path part stl decomp released max_parts tol y.
      (\<And>junk path part stl decomp released max_parts tol y.
          rec junk path part stl decomp released max_parts tol = Some y \<Longrightarrow>
          P junk path part stl decomp released max_parts tol y) \<Longrightarrow>
      (if triangle_indices part = [] then Some (decomp, released)
       else if length (parts decomp) \<ge> max_parts
         then Some (convex_decomposition_add_part (\<lambda>r. volume (ref_part r)) decomp
                      \<lparr>ref_block = path, ref_part = part\<rparr>, released)
       else if compute_part_concavity part stl \<le> tol \<or> length (triangle_indices part) < 10
         then Some (convex_decomposition_add_part (\<lambda>r. volume (ref_part r)) decomp
                      \<lparr>ref_block = path, ref_part = part\<rparr>, released)
       else
         Option.bind
           (if triangle_indices (fst (split_parts junk path part stl)) \<noteq> []
            then rec junk (0 # path)
                   (convex_part_compute_properties (fst (split_parts junk path part stl)) stl)
                   stl decomp released max_parts tol
            else Some (decomp, released))
           (\<lambda>s1.
              Option.bind
                (if triangle_indices (snd (split_parts junk path part stl)) \<noteq> []
                 then rec junk (1 # path)
                        (convex_part_compute_properties (snd (split_parts junk path part stl)) stl)
                        stl (fst s1) (snd s1) max_parts tol
                 else Some s1)
                (\<lambda>s2. Some (fst s2,
                              convex_part_free (convex_part_free (snd s2) (0 # path)) (1 # path)))))
        = Some y \<Longrightarrow>
      P junk path part stl decomp released max_parts tol y"
    and run: "approximate_decompose_part junk path part stl decomp released max_parts tol = Some y"
  shows "P junk path part stl decomp released max_parts tol y"
proof (rule approximate_decompose_part.raw_induct[where P = P, OF _ run], goal_cases)
  case (1 rec junk path part stl decomp released max_parts tol y)
  have body: "(if triangle_indices part = [] then Some (decomp, released)
       else if length (parts decomp) \<ge> max_parts
         then Some (convex_decomposition_add_part (\<lambda>r. volume (ref_part r)) decomp
                      \<lparr>ref_block = path, ref_part = part\<rparr>, released)
       else if compute_part_concavity part stl \<le> tol \<or> length (triangle_indices part) < 10
         then Some (convex_decomposition_add_part (\<lambda>r. volume (ref_part r)) decomp
                      \<lparr>ref_block = path, ref_part = part\<rparr>, released)
       else
         Option.bind
           (if triangle_indices (fst (split_parts junk path part stl)) \<noteq> []
            then rec junk (0 # path)
                   (convex_part_compute_properties (fst (split_parts junk path part stl)) stl)
                   stl decomp released max_parts tol
            else Some (decomp, released))
           (\<lambda>s1.
              Option.bind
                (if triangle_indices (snd (split_parts junk path part stl)) \<noteq> []
                 then rec junk (1 # path)
                        (convex_part_compute_properties (snd (split_parts junk path part stl)) stl)
                        stl (fst s1) (snd s1) max_parts tol
                 else Some s1)
                (\<lambda>s2. Some (fst s2,
                              convex_part_free (convex_part_free (snd s2) (0 # path)) (1 # path)))))
        = Some y"
    using 1(2) by (simp only: split_parts_def split_def prod.collapse)
  show ?case
    using 1(1) body by (rule step[of rec])
qed

lemma approximate_decompose_part_accepts:
  assumes "triangle_indices part \<noteq> []" "hull_num_vertices (part_hull part) < 4"
    "0 \<le> tol \<or> length (triangle_indices part) < 10"
  shows "approximate_decompose_part junk path part stl decomp released max_parts tol
           = Some (convex_decomposition_add_part (\<lambda>r. volume (ref_part r)) decomp
                     \<lparr>ref_block = path, ref_part = part\<rparr>, released)"
  using assms
  by (subst approximate_decompose_part.simps) (auto simp: compute_part_concavity_empty_hull)

lemma approximate_decompose_part_at_cap:
  assumes "triangle_indices part \<noteq> []" "max_parts \<le> length (parts decomp)"
  shows "approximate_decompose_part junk path part stl decomp released max_parts tol
           = Some (convex_decomposition_add_part (\<lambda>r. volume (ref_part r)) decomp
                     \<lparr>ref_block = path, ref_part = part\<rparr>, released)"
  using assms
  by (subst approximate_decompose_part.simps) auto

lemma approximate_convex_decomposition_unfold:
  "approximate_convex_decomposition stale junk stl max_parts qt tol =
     (if num_triangles stl = 0 then Some None
      else case approximate_decompose_part junk [] (whole_mesh_part junk stl) stl
                  ((convex_decomposition_create max_parts)\<lparr>strategy := DECOMP_APPROX_CONVEX\<rparr>)
                  {} max_parts tol of
             None \<Rightarrow> None
           | Some s \<Rightarrow>
               Some (Some ((fst s)\<lparr>decomposition_quality :=
                              compute_decomposition_quality
                                (\<lambda>r. volume (read_part stale (convex_part_free (snd s) []) r))
                                (fst s)\<rparr>,
                           convex_part_free (snd s) [])))"
  by (simp add: approximate_convex_decomposition_def whole_mesh_part_def Let_def case_prod_beta
      split: option.splits)


subsection \<open>Invariants of the hierarchical and the voxel strategy\<close>

text \<open>
  \<open>I\<close> is a property of decompositions that storing a part with property \<open>Q\<close>
  keeps, and \<open>Q\<close> a property of parts that creation, adding a triangle and
  computing the properties keep. Then \<open>I\<close> holds of what the two strategies have built
  when they compute the quality.
\<close>

lemma hierarchical_split_part_inv:
  assumes add: "\<And>d p. I d \<Longrightarrow> Q p \<Longrightarrow> I (convex_decomposition_add_part volume d p)"
    and create: "\<And>j c. Q (convex_part_create j c)"
    and tri: "\<And>p i. Q p \<Longrightarrow> Q (convex_part_add_triangle p i)"
    and props: "\<And>p s. Q p \<Longrightarrow> Q (convex_part_compute_properties p s)"
  shows "I decomp \<Longrightarrow> I (hierarchical_split_part junk path part stl decomp depth max_d thr)"
proof (induction "max_d - depth" arbitrary: junk path part decomp depth)
  case 0
  then have "depth \<ge> max_d" by simp
  have foldQ: "Q (foldl convex_part_add_triangle p xs)" if "Q p" for p xs
    using that by (induction xs arbitrary: p) (simp_all add: tri)
  show ?case
    using \<open>depth \<ge> max_d\<close> "0.prems" add props foldQ[OF create]
    by (subst hierarchical_split_part_unfold) simp
next
  case (Suc n)
  have foldQ: "Q (foldl convex_part_add_triangle p xs)" if "Q p" for p xs
    using that by (induction xs arbitrary: p) (simp_all add: tri)
  show ?case
  proof (cases "depth \<ge> max_d \<or> length (triangle_indices part) < 10")
    case True
    then show ?thesis
      using Suc.prems add props foldQ[OF create]
      by (subst hierarchical_split_part_unfold) simp
  next
    case False
    have n: "n = max_d - (depth + 1)" using Suc.hyps(2) by simp
    define d1 where "d1 = (if triangle_indices (fst (split_parts junk path part stl)) \<noteq> []
                then hierarchical_split_part junk (0 # path)
                       (convex_part_compute_properties (fst (split_parts junk path part stl)) stl)
                       stl decomp (depth + 1) max_d thr
                else decomp)"
    have "I d1"
      unfolding d1_def using Suc.hyps(1)[OF n] Suc.prems by simp
    then have "I (if triangle_indices (snd (split_parts junk path part stl)) \<noteq> []
            then hierarchical_split_part junk (1 # path)
                   (convex_part_compute_properties (snd (split_parts junk path part stl)) stl)
                   stl d1 (depth + 1) max_d thr
            else d1)"
      using Suc.hyps(1)[OF n] by simp
    then show ?thesis
      using False by (subst hierarchical_split_part_unfold) (simp only: Let_def d1_def if_False)
  qed
qed

lemma foldl_inv:
  assumes "\<And>d x. I d \<Longrightarrow> I (f d x)" "I d"
  shows "I (foldl f d xs)"
  using assms(2) by (induction xs arbitrary: d) (simp_all add: assms(1))

lemma voxel_emit_inv:
  assumes add: "\<And>d p. I d \<Longrightarrow> Q p \<Longrightarrow> I (convex_decomposition_add_part volume d p)"
    and create: "\<And>j c. Q (convex_part_create j c)"
    and tri: "\<And>p i. Q p \<Longrightarrow> Q (convex_part_add_triangle p i)"
    and props: "\<And>p s. Q p \<Longrightarrow> Q (convex_part_compute_properties p s)"
    and "I d"
  shows "I (voxel_emit junk stl vs m grid d cell)"
proof -
  have "Q (foldl (\<lambda>part i. if triangle_voxel stl vs i = cell
                      then convex_part_add_triangle part i else part) p xs)" if "Q p" for p xs
    using that by (induction xs arbitrary: p) (simp_all add: tri)
  then show ?thesis
    using assms(5) add props create by (simp add: voxel_emit_def Let_def)
qed

lemma strategies_inv:
  assumes add: "\<And>d p. I d \<Longrightarrow> Q p \<Longrightarrow> I (convex_decomposition_add_part volume d p)"
    and create: "\<And>j c. Q (convex_part_create j c)"
    and tri: "\<And>p i. Q p \<Longrightarrow> Q (convex_part_add_triangle p i)"
    and props: "\<And>p s. Q p \<Longrightarrow> Q (convex_part_compute_properties p s)"
    and init: "\<And>c s. I ((convex_decomposition_create c)\<lparr>strategy := s\<rparr>)"
  shows "hierarchical_decomposition junk stl max_d thr = Some d \<Longrightarrow>
           \<exists>d0. I d0 \<and> d = d0\<lparr>decomposition_quality := compute_decomposition_quality volume d0\<rparr>"
    and "voxel_based_decomposition junk stl vs m = Some d \<Longrightarrow>
           \<exists>d0. I d0 \<and> d = d0\<lparr>decomposition_quality := compute_decomposition_quality volume d0\<rparr>"
proof -
  have foldQ: "Q (foldl convex_part_add_triangle p xs)" if "Q p" for p xs
    using that by (induction xs arbitrary: p) (simp_all add: tri)
  have whole: "Q (whole_mesh_part junk stl)"
    unfolding whole_mesh_part_def by (intro props foldQ create)
  {
    assume "hierarchical_decomposition junk stl max_d thr = Some d"
    then have d: "d = (hierarchical_split_part junk [] (whole_mesh_part junk stl) stl
              ((convex_decomposition_create (2 ^ max_d))\<lparr>strategy := DECOMP_HIERARCHICAL\<rparr>)
              0 max_d thr)\<lparr>decomposition_quality := compute_decomposition_quality volume
             (hierarchical_split_part junk [] (whole_mesh_part junk stl) stl
              ((convex_decomposition_create (2 ^ max_d))\<lparr>strategy := DECOMP_HIERARCHICAL\<rparr>)
              0 max_d thr)\<rparr>"
      by (auto simp: hierarchical_decomposition_def whole_mesh_part_def Let_def split: if_splits)
    have "I (hierarchical_split_part junk [] (whole_mesh_part junk stl) stl
              ((convex_decomposition_create (2 ^ max_d))\<lparr>strategy := DECOMP_HIERARCHICAL\<rparr>)
              0 max_d thr)"
      by (rule hierarchical_split_part_inv[where I = I and Q = Q, OF add create tri props init])
    with d show "\<exists>d0. I d0 \<and> d = d0\<lparr>decomposition_quality := compute_decomposition_quality volume d0\<rparr>"
      by blast
  }
  {
    assume "voxel_based_decomposition junk stl vs m = Some d"
    then obtain d0 where d: "d = d0\<lparr>decomposition_quality := compute_decomposition_quality volume d0\<rparr>"
      and d0: "d0 = foldl (\<lambda>decomp x.
                  foldl (\<lambda>decomp y.
                     foldl (\<lambda>decomp z.
                        voxel_emit junk stl vs m (count_voxels stl vs) decomp (x, y, z))
                       decomp [0..num_voxels stl vs 2 - 1])
                    decomp [0..num_voxels stl vs 1 - 1])
                 ((convex_decomposition_create 100)\<lparr>strategy := DECOMP_VOXEL_BASED\<rparr>)
                 [0..num_voxels stl vs 0 - 1]"
      by (auto simp: voxel_based_decomposition_def Let_def split: if_splits)
    have "I d0"
      unfolding d0
      by (intro foldl_inv[where I = I] voxel_emit_inv[where I = I and Q = Q] add create tri props init)
    with d show "\<exists>d0. I d0 \<and> d = d0\<lparr>decomposition_quality := compute_decomposition_quality volume d0\<rparr>"
      by blast
  }
qed


subsection \<open>Runs on the concrete meshes\<close>

lemmas part_eval =
  convex_part_create_def convex_part_add_triangle_def convex_part_compute_properties_def
  convex_decomposition_create_def convex_decomposition_add_part_def
  compute_decomposition_quality_def compute_part_concavity_def compute_volume_def
  mk_triangle_def upt_rec Let_def junk_zero_def

lemmas voxel_eval =
  voxel_based_decomposition_def voxel_grid_alloc_fails_def voxel_emit_def count_voxels_def voxel_count_step_def
  triangle_voxel_def
  num_voxels_def c_int_of_float_def upto.simps

lemma slab_mesh_fields:
  "num_triangles slab_mesh = 4" "bounds slab_mesh = [0, 0, 0, 10, 10, 10]"
  "triangles slab_mesh = [mk_triangle [10, 0, 0] [10, 10, 0] [10, 0, 10],
                   mk_triangle [0, 0, 0] [0, 10, 0] [0, 0, 10],
                   mk_triangle [4, 0, 0] [5, 10, 0] [6, 0, 10],
                   mk_triangle [0, 0, 0] [0, 10, 10] [0, 0, 10]]"
  by (simp_all add: slab_mesh_def)

lemma hierarchical_slab_mesh:
  "hierarchical_decomposition junk_zero slab_mesh 3 (4 / 5) =
     Some (slab_decomposition DECOMP_HIERARCHICAL 8)"
  by (simp add: hierarchical_decomposition_def hierarchical_split_part.simps
      slab_mesh_fields part_eval slab_decomposition_def slab_whole_part_def empty_hull_zero_def)

lemma voxel_slab_mesh_10_1:
  "voxel_based_decomposition junk_zero slab_mesh 10 1 =
     Some slab_voxel_decomposition"
  by (simp add: voxel_eval slab_mesh_fields part_eval slab_voxel_decomposition_def slab_near_part_def slab_far_part_def
      empty_hull_zero_def)

lemma two_cluster_centroid_x:
  "i < 12 \<Longrightarrow> split_centroid two_cluster_mesh 0 i = (if i < 6 then 0 else 10)"
  by (simp add: split_centroid_def two_cluster_mesh_def nth_append mk_triangle_def)

lemma filter_upt_12:
  "filter (\<lambda>i. split_centroid two_cluster_mesh 0 i < sv) [0..<12] =
     (if 10 < sv then [0..<12] else if 0 < sv then [0..<6] else [])"
  "filter (\<lambda>i. \<not> split_centroid two_cluster_mesh 0 i < sv) [0..<12] =
     (if 10 < sv then [] else if 0 < sv then [6..<12] else [0..<12])"
proof -
  have s: "[0..<12] = [0..<6] @ [6..<12]"
    by (simp add: upt_rec)
  have a: "filter (\<lambda>i. split_centroid two_cluster_mesh 0 i < sv) [0..<6] = (if 0 < sv then [0..<6] else [])"
    by (rule trans[OF filter_cong[OF refl, of _ _ "\<lambda>i. 0 < sv"]]) (auto simp: two_cluster_centroid_x)
  have b: "filter (\<lambda>i. split_centroid two_cluster_mesh 0 i < sv) [6..<12] = (if 10 < sv then [6..<12] else [])"
    by (rule trans[OF filter_cong[OF refl, of _ _ "\<lambda>i. 10 < sv"]]) (auto simp: two_cluster_centroid_x)
  have a': "filter (\<lambda>i. \<not> split_centroid two_cluster_mesh 0 i < sv) [0..<6] = (if 0 < sv then [] else [0..<6])"
    by (rule trans[OF filter_cong[OF refl, of _ _ "\<lambda>i. \<not> 0 < sv"]]) (auto simp: two_cluster_centroid_x)
  have b': "filter (\<lambda>i. \<not> split_centroid two_cluster_mesh 0 i < sv) [6..<12] = (if 10 < sv then [] else [6..<12])"
    by (rule trans[OF filter_cong[OF refl, of _ _ "\<lambda>i. \<not> 10 < sv"]]) (auto simp: two_cluster_centroid_x)
  show "filter (\<lambda>i. split_centroid two_cluster_mesh 0 i < sv) [0..<12] =
     (if 10 < sv then [0..<12] else if 0 < sv then [0..<6] else [])"
    unfolding s filter_append a b by (simp add: s[symmetric])
  show "filter (\<lambda>i. \<not> split_centroid two_cluster_mesh 0 i < sv) [0..<12] =
     (if 10 < sv then [] else if 0 < sv then [6..<12] else [0..<12])"
    unfolding s filter_append a' b' by (simp add: s[symmetric])
qed

subsection \<open>The approximate strategy\<close>

text \<open>
  Every pointer that \<open>approximate_decompose_part\<close> stores is the pointer to the part it
  was called with, and whoever created that part releases it when the call has
  returned. So when \<open>approximate_convex_decomposition\<close> computes the quality and
  returns, every pointer in the decomposition points to a released block.
\<close>

lemma approximate_decompose_part_releases:
  assumes "approximate_decompose_part junk path part stl decomp released max_parts tol = Some y"
  shows "released \<subseteq> snd y \<and>
         (\<forall>r \<in> set (parts (fst y)).
            r \<in> set (parts decomp) \<or> ref_block r = path \<or> ref_block r \<in> snd y)"
proof (rule approximate_decompose_part_induct
    [where P = "\<lambda>junk path part stl decomp released max_parts tol y.
        released \<subseteq> snd y \<and>
        (\<forall>r \<in> set (parts (fst y)).
           r \<in> set (parts decomp) \<or> ref_block r = path \<or> ref_block r \<in> snd y)", OF _ assms],
    goal_cases)
  case (1 rec junk path part stl decomp released max_parts tol y)
  define l where "l = convex_part_compute_properties (fst (split_parts junk path part stl)) stl"
  define r where "r = convex_part_compute_properties (snd (split_parts junk path part stl)) stl"
  note IH = 1(1)
  show ?case
  proof (cases "triangle_indices part = [] \<or> length (parts decomp) \<ge> max_parts \<or>
                compute_part_concavity part stl \<le> tol \<or> length (triangle_indices part) < 10")
    case True
    with 1(2) have "y = (decomp, released) \<or>
        y = (convex_decomposition_add_part (\<lambda>r. volume (ref_part r)) decomp
               \<lparr>ref_block = path, ref_part = part\<rparr>, released)"
      by (auto split: if_splits)
    then show ?thesis
      using parts_add_part[of "\<lambda>r. volume (ref_part r)" decomp
          "\<lparr>ref_block = path, ref_part = part\<rparr>"]
      by auto
  next
    case False
    with 1(2) obtain s1 s2 where
      s1: "(if triangle_indices (fst (split_parts junk path part stl)) \<noteq> []
            then rec junk (0 # path) l stl decomp released max_parts tol
            else Some (decomp, released)) = Some s1" and
      s2: "(if triangle_indices (snd (split_parts junk path part stl)) \<noteq> []
            then rec junk (1 # path) r stl (fst s1) (snd s1) max_parts tol
            else Some s1) = Some s2" and
      y: "y = (fst s2, convex_part_free (convex_part_free (snd s2) (0 # path)) (1 # path))"
      unfolding l_def r_def by (auto split: bind_splits)
    have a: "released \<subseteq> snd s1 \<and>
             (\<forall>x \<in> set (parts (fst s1)).
                x \<in> set (parts decomp) \<or> ref_block x = 0 # path \<or> ref_block x \<in> snd s1)"
      using s1 IH[of junk "0 # path" l stl decomp released max_parts tol s1]
      by (auto split: if_splits)
    have b: "snd s1 \<subseteq> snd s2 \<and>
             (\<forall>x \<in> set (parts (fst s2)).
                x \<in> set (parts (fst s1)) \<or> ref_block x = 1 # path \<or> ref_block x \<in> snd s2)"
      using s2 IH[of junk "1 # path" r stl "fst s1" "snd s1" max_parts tol s2]
      by (auto split: if_splits)
    show ?thesis
      unfolding y using a b by (auto simp: convex_part_free_def)
  qed
qed

lemma approximate_parts_released:
  assumes "approximate_convex_decomposition stale junk stl max_parts qt tol = Some (Some (d, released))"
  shows "\<forall>r \<in> set (parts d). ref_block r \<in> released"
proof -
  from assms obtain s where
    run: "approximate_decompose_part junk [] (whole_mesh_part junk stl) stl
            ((convex_decomposition_create max_parts)\<lparr>strategy := DECOMP_APPROX_CONVEX\<rparr>)
            {} max_parts tol = Some s"
    and d: "parts d = parts (fst s)" and rel: "released = convex_part_free (snd s) []"
    by (auto simp: approximate_convex_decomposition_unfold split: if_splits option.splits)
  from approximate_decompose_part_releases[OF run]
  have "\<forall>r \<in> set (parts (fst s)). ref_block r = [] \<or> ref_block r \<in> snd s"
    by (simp add: convex_decomposition_create_def)
  then show ?thesis
    by (auto simp: d rel convex_part_free_def)
qed

lemma read_released:
  "ref_block r \<in> released \<Longrightarrow> read_part stale released r = stale (ref_block r)"
  by (simp add: read_part_def)

text \<open>Runs of the approximate strategy.\<close>

lemma approximate_slab_mesh:
  "approximate_convex_decomposition stale junk_zero slab_mesh 8 (4 / 5) (1 / 10) =
     Some (Some (slab_released_decomposition (volume (stale [])), {[]}))"
  by (simp add: approximate_convex_decomposition_def approximate_decompose_part.simps
      slab_mesh_fields part_eval slab_released_decomposition_def slab_whole_part_def
      empty_hull_zero_def convex_part_free_def read_part_def)

lemma approximate_decompose_part_diverges:
  assumes "triangle_indices part = [0..<12]" "hull_num_vertices (part_hull part) = 0"
    and "hull_bounds (part_hull part) = [0, 0, 0, 0, 0, 0]" "parts decomp = []"
  shows "approximate_decompose_part junk_zero path part two_cluster_mesh decomp released 1 (- 1)
           = None"
proof (rule ccontr)
  assume "approximate_decompose_part junk_zero path part two_cluster_mesh decomp released 1 (- 1)
            \<noteq> None"
  then obtain y where run:
    "approximate_decompose_part junk_zero path part two_cluster_mesh decomp released 1 (- 1) = Some y"
    by blast
  have "\<not> (junk_zero = junk_zero \<and> two_cluster_mesh = two_cluster_mesh \<and> (1::nat) = 1 \<and>
           (- 1 :: real) = - 1 \<and> parts decomp = [] \<and> triangle_indices part = [0..<12] \<and>
           hull_num_vertices (part_hull part) = 0 \<and>
           hull_bounds (part_hull part) = [0, 0, 0, 0, 0, 0])"
  proof (rule approximate_decompose_part_induct
      [where P = "\<lambda>junk path part stl decomp released max_parts tol y.
           \<not> (junk = junk_zero \<and> stl = two_cluster_mesh \<and> max_parts = 1 \<and> tol = - 1 \<and>
              parts decomp = [] \<and> triangle_indices part = [0..<12] \<and>
              hull_num_vertices (part_hull part) = 0 \<and>
              hull_bounds (part_hull part) = [0, 0, 0, 0, 0, 0])", OF _ run], goal_cases)
    case (1 rec junk path part stl decomp released max_parts tol y)
    show ?case
    proof
      assume S: "junk = junk_zero \<and> stl = two_cluster_mesh \<and> max_parts = 1 \<and> tol = - 1 \<and>
              parts decomp = [] \<and> triangle_indices part = [0..<12] \<and>
              hull_num_vertices (part_hull part) = 0 \<and>
              hull_bounds (part_hull part) = [0, 0, 0, 0, 0, 0]"
      define l where "l = fst (split_parts junk path part stl)"
      define r where "r = snd (split_parts junk path part stl)"
      have len: "2 \<le> length (triangle_indices part)" using S by simp
      have ax: "split_axis_of part = 0" "split_value_of part 0 = 0"
        using split_axis_value_zero S by blast+
      have l: "triangle_indices l = []"
        using split_parts_indices(1)[OF len, of junk path stl] S
        by (simp add: l_def ax filter_upt_12)
      have r: "triangle_indices r = [0..<12]" "hull_num_vertices (part_hull r) = 0"
        "hull_bounds (part_hull r) = [0, 0, 0, 0, 0, 0]"
        using split_parts_indices(2,4)[OF len, of junk path stl] S
        by (simp_all add: r_def ax filter_upt_12 convex_part_create_def junk_zero_def)
      have conc: "compute_part_concavity part stl = 0"
        using S by (simp add: compute_part_concavity_empty_hull)
      have "\<exists>s2. rec junk (1 # path) (convex_part_compute_properties r stl) stl decomp released
                   max_parts tol = Some s2"
        using 1(2) S l r(1) conc unfolding l_def[symmetric] r_def[symmetric]
        by (auto simp del: upt_Suc split: bind_splits)
      then obtain s2 where "rec junk (1 # path) (convex_part_compute_properties r stl) stl decomp
                   released max_parts tol = Some s2"
        by blast
      from 1(1)[OF this] S r show False by simp
    qed
  qed
  with assms show False by simp
qed

lemma approximate_two_cluster_diverges:
  "approximate_convex_decomposition stale junk_zero two_cluster_mesh 1 qt (- 1) = None"
proof -
  have n: "0 < num_triangles two_cluster_mesh" "num_triangles two_cluster_mesh = 12"
    by (simp_all add: two_cluster_mesh_def)
  have "approximate_decompose_part junk_zero [] (whole_mesh_part junk_zero two_cluster_mesh)
          two_cluster_mesh ((convex_decomposition_create 1)\<lparr>strategy := DECOMP_APPROX_CONVEX\<rparr>)
          {} 1 (- 1) = None"
    using whole_mesh_part_props(1,2)[OF n(1), of junk_zero] n(2)
    by (intro approximate_decompose_part_diverges)
       (simp_all add: whole_mesh_part_def convex_part_create_def junk_zero_def
          convex_decomposition_create_def)
  then show ?thesis
    using n by (simp add: approximate_convex_decomposition_unfold)
qed

lemma approximate_two_cluster_overshoots:
  "map_option (map_option (\<lambda>s. (stored_triangles (fst s), map ref_block (parts (fst s)), snd s)))
     (approximate_convex_decomposition stale junk_box two_cluster_mesh 1 qt (- 1))
   = Some (Some ([[0, 1, 2, 3, 4, 5], [6, 7, 8, 9, 10, 11]], [[0], [1]], {[0], [1], []}))"
proof -
  define root where "root = whole_mesh_part junk_box two_cluster_mesh"
  define d0 :: "part_ref convex_decomposition_t"
    where "d0 = (convex_decomposition_create 1)\<lparr>strategy := DECOMP_APPROX_CONVEX\<rparr>"
  define l where "l = convex_part_compute_properties (fst (split_parts junk_box [] root two_cluster_mesh)) two_cluster_mesh"
  define r where "r = convex_part_compute_properties (snd (split_parts junk_box [] root two_cluster_mesh)) two_cluster_mesh"
  have n: "0 < num_triangles two_cluster_mesh" "num_triangles two_cluster_mesh = 12"
    by (simp_all add: two_cluster_mesh_def)
  have root: "triangle_indices root = [0..<12]" "hull_num_vertices (part_hull root) = 0"
    "hull_bounds (part_hull root) = [0, 0, 0, 10, 1, 1]"
    "compute_part_concavity root two_cluster_mesh = 0"
    using whole_mesh_part_props[OF n(1), of junk_box] n(2)
    by (simp_all add: root_def whole_mesh_part_def convex_part_create_def junk_box_def)
  have len: "2 \<le> length (triangle_indices root)" using root by simp
  have ax: "split_axis_of root = 0" "split_value_of root 0 = 5"
    using split_axis_value_box root(3) by blast+
  have l: "triangle_indices l = [0..<6]" "hull_num_vertices (part_hull l) = 0"
    using split_parts_indices(1,3)[OF len, of junk_box "[]" two_cluster_mesh] root(1)
    by (simp_all add: l_def ax filter_upt_12)
  have r: "triangle_indices r = [6..<12]"
    using split_parts_indices(2)[OF len, of junk_box "[]" two_cluster_mesh] root(1)
    by (simp_all add: r_def ax filter_upt_12)
  have d0: "parts d0 = []" "decomp_capacity d0 = 1"
    by (simp_all add: d0_def convex_decomposition_create_def)
  define d1 where "d1 = convex_decomposition_add_part (\<lambda>r. volume (ref_part r)) d0
                          \<lparr>ref_block = [0], ref_part = l\<rparr>"
  define d2 where "d2 = convex_decomposition_add_part (\<lambda>r. volume (ref_part r)) d1
                          \<lparr>ref_block = [1], ref_part = r\<rparr>"
  have d1: "parts d1 = [\<lparr>ref_block = [0], ref_part = l\<rparr>]" "decomp_capacity d1 = 1"
    using d0 by (simp_all add: d1_def convex_decomposition_add_part_def)
  have d2: "parts d2 = [\<lparr>ref_block = [0], ref_part = l\<rparr>, \<lparr>ref_block = [1], ref_part = r\<rparr>]"
    using d1 by (simp add: d2_def convex_decomposition_add_part_def)
  have left: "approximate_decompose_part junk_box [0] l two_cluster_mesh d0 {} 1 (- 1)
                = Some (d1, {})"
    unfolding d1_def using l by (intro approximate_decompose_part_accepts) simp_all
  have right: "approximate_decompose_part junk_box [1] r two_cluster_mesh d1 {} 1 (- 1)
                 = Some (d2, {})"
    unfolding d2_def using r d1 by (intro approximate_decompose_part_at_cap) simp_all
  have "approximate_decompose_part junk_box [] root two_cluster_mesh d0 {} 1 (- 1)
          = Some (d2, {[0], [1]})"
  proof -
    have c: "\<not> (triangle_indices root = [] \<or> 1 \<le> length (parts d0) \<or>
                compute_part_concavity root two_cluster_mesh \<le> - 1 \<or>
                length (triangle_indices root) < 10)"
      using root d0 by simp
    have ne: "triangle_indices (fst (split_parts junk_box [] root two_cluster_mesh)) \<noteq> []"
      "triangle_indices (snd (split_parts junk_box [] root two_cluster_mesh)) \<noteq> []"
      using l(1) r by (simp_all add: l_def r_def)
    show ?thesis
      using c ne left right
      by (subst approximate_decompose_part_unfold)
         (auto simp: l_def[symmetric] r_def[symmetric] convex_part_free_def)
  qed
  then have "approximate_convex_decomposition stale junk_box two_cluster_mesh 1 qt (- 1)
               = Some (Some (d2\<lparr>decomposition_quality :=
                                  compute_decomposition_quality
                                    (\<lambda>r. volume (read_part stale {[0], [1], []} r)) d2\<rparr>,
                             {[0], [1], []}))"
    unfolding root_def d0_def using n
    by (auto simp: approximate_convex_decomposition_unfold convex_part_free_def insert_commute)
  moreover have "[0..<6] = [0, 1, 2, 3, 4, 5 :: nat]" "[6..<12] = [6, 7, 8, 9, 10, 11 :: nat]"
    by (simp_all add: upt_rec numeral_eq_Suc)
  ultimately show ?thesis
    using d2 l(1) r by (simp add: stored_triangles_def)
qed

text \<open>
  With at least one part allowed and a tolerance that is not negative (or fewer than
  ten triangles) the approximate strategy accepts the initial part: the hull has no
  vertices, so the concavity is 0. With \<open>max_parts = 0\<close> the part is handed to
  \<open>convex_decomposition_add_part\<close> as well, but nothing is stored.
\<close>

lemma approximate_single_part:
  assumes "0 < num_triangles stl" "1 \<le> max_parts" "0 \<le> tol \<or> num_triangles stl < 10"
  shows "\<exists>d. approximate_convex_decomposition stale junk stl max_parts qt tol
               = Some (Some (d, {[]})) \<and>
             parts d = [\<lparr>ref_block = [], ref_part = whole_mesh_part junk stl\<rparr>]"
proof -
  let ?d0 = "(convex_decomposition_create max_parts)\<lparr>strategy := DECOMP_APPROX_CONVEX\<rparr>
               :: part_ref convex_decomposition_t"
  let ?r = "\<lparr>ref_block = [], ref_part = whole_mesh_part junk stl\<rparr>"
  have "approximate_decompose_part junk [] (whole_mesh_part junk stl) stl ?d0 {} max_parts tol
          = Some (convex_decomposition_add_part (\<lambda>r. volume (ref_part r)) ?d0 ?r, {})"
    using assms whole_mesh_part_props[OF assms(1), of junk]
    by (intro approximate_decompose_part_accepts) auto
  moreover have "parts (convex_decomposition_add_part (\<lambda>r. volume (ref_part r)) ?d0 ?r) = [?r]"
    using assms(2) by (simp add: convex_decomposition_add_part_def convex_decomposition_create_def)
  ultimately show ?thesis
    using assms(1) by (simp add: approximate_convex_decomposition_unfold convex_part_free_def)
qed

lemma approximate_zero_max_parts:
  assumes "0 < num_triangles stl"
  shows "\<exists>d. approximate_convex_decomposition stale junk stl 0 qt tol = Some (Some (d, {[]})) \<and>
             parts d = [] \<and> decomposition_quality d = 0"
proof -
  let ?d0 = "(convex_decomposition_create 0)\<lparr>strategy := DECOMP_APPROX_CONVEX\<rparr>
               :: part_ref convex_decomposition_t"
  let ?r = "\<lparr>ref_block = [], ref_part = whole_mesh_part junk stl\<rparr>"
  have "approximate_decompose_part junk [] (whole_mesh_part junk stl) stl ?d0 {} 0 tol
          = Some (convex_decomposition_add_part (\<lambda>r. volume (ref_part r)) ?d0 ?r, {})"
    using whole_mesh_part_props[OF assms, of junk] assms
    by (intro approximate_decompose_part_at_cap) auto
  moreover have "parts (convex_decomposition_add_part (\<lambda>r. volume (ref_part r)) ?d0 ?r) = []"
    by (simp add: convex_decomposition_add_part_def convex_decomposition_create_def)
  ultimately show ?thesis
    using assms
    by (simp add: approximate_convex_decomposition_unfold compute_decomposition_quality_def
        convex_part_free_def)
qed


text \<open>
  C2, at a tolerance below 0, on the mesh of two clusters with \<open>max_parts = 1\<close>. The
  part of twelve triangles is not accepted and is split at the midpoint of
  \<open>hull.bounds\<close>, which \<open>convex_part_create\<close> never wrote. When that memory holds
  zeros, every centroid lies at or above the split value 0, the right part is the
  whole part again, and the call never returns. When it holds the bounding box of the
  mesh, the parts are the two clusters and pointers to both are stored: two parts,
  where \<open>max_parts\<close> is 1. (Both parts, like the initial one, have been released when
  the decomposition is returned.)
\<close>

theorem approximate_negative_tolerance:
  "approximate_convex_decomposition stale junk_zero two_cluster_mesh 1 (4 / 5) (- 1) = None \<and>
   map_option (map_option (\<lambda>s. (stored_triangles (fst s), map ref_block (parts (fst s)), snd s)))
     (approximate_convex_decomposition stale junk_box two_cluster_mesh 1 (4 / 5) (- 1))
   = Some (Some ([[0, 1, 2, 3, 4, 5], [6, 7, 8, 9, 10, 11]], [[0], [1]], {[0], [1], []}))"
  by (rule conjI, rule approximate_two_cluster_diverges, rule approximate_two_cluster_overshoots)

text \<open>
  C3, at \<open>max_parts = 0\<close>: the decomposition is created with capacity 0, doubling
  leaves the capacity at 0, and the pointer to the accepted part is not stored. The
  decomposition that is returned has no part (the claim says exactly one).
\<close>

theorem approximate_zero_max_parts_drops_part:
  "approximate_convex_decomposition stale junk_zero slab_mesh 0 (4 / 5) (1 / 10) =
     Some (Some (\<lparr>parts = [], decomp_capacity = 0, strategy = DECOMP_APPROX_CONVEX,
                   total_volume = 0, decomposition_quality = 0\<rparr>, {[]}))"
  by (simp add: approximate_convex_decomposition_def approximate_decompose_part.simps
      slab_mesh_fields part_eval convex_part_free_def)

subsection \<open>The threshold of the hierarchical strategy\<close>

lemma hierarchical_split_part_threshold:
  "hierarchical_split_part junk path part stl decomp depth max_d t1 =
   hierarchical_split_part junk path part stl decomp depth max_d t2"
proof (induction "max_d - depth" arbitrary: path part decomp depth)
  case 0
  then show ?case
    by (subst (1 2) hierarchical_split_part_unfold) simp
next
  case (Suc n)
  then have n: "n = max_d - (depth + 1)" by simp
  show ?case
    by (subst (1 2) hierarchical_split_part_unfold) (simp only: Suc.hyps(1)[OF n])
qed

text \<open>
  C9. \<open>hierarchical_decomposition\<close> returns the same decomposition (the same parts with
  the same triangles in the same order, and the same other fields) for any two values
  of \<open>split_threshold\<close>, for every mesh, every \<open>max_depth\<close> and whatever the
  unwritten hull bounds hold.
\<close>

theorem hierarchical_decomposition_ignores_threshold:
  "hierarchical_decomposition junk stl max_d t1 = hierarchical_decomposition junk stl max_d t2"
  by (simp only: hierarchical_decomposition_def hierarchical_split_part_threshold[of _ _ _ _ _ _ _ t1 t2])

subsection \<open>Hulls\<close>

lemma hull_is_empty_steps:
  "hull_is_empty (convex_part_create j c)"
  "hull_is_empty p \<Longrightarrow> hull_is_empty (convex_part_add_triangle p i)"
  "hull_is_empty p \<Longrightarrow> hull_is_empty (convex_part_compute_properties p s)"
  by (simp_all add: hull_is_empty_def)

lemma all_hulls_empty_add:
  "\<forall>p \<in> set (parts d). hull_is_empty p \<Longrightarrow> hull_is_empty p \<Longrightarrow>
   \<forall>p \<in> set (parts (convex_decomposition_add_part volume d p)). hull_is_empty p"
  using parts_add_part[of volume d p] by auto

lemma all_hulls_empty_init:
  "\<forall>p \<in> set (parts ((convex_decomposition_create c)\<lparr>strategy := s\<rparr>)). hull_is_empty p"
  by (simp add: convex_decomposition_create_def)

lemma hulls_empty_inv:
  shows "hierarchical_decomposition junk stl max_d thr = Some d \<Longrightarrow>
           \<forall>p \<in> set (parts d). hull_is_empty p"
    and "voxel_based_decomposition junk stl vs m = Some d \<Longrightarrow>
           \<forall>p \<in> set (parts d). hull_is_empty p"
proof -
  note inv = strategies_inv[where I = "\<lambda>d. \<forall>p \<in> set (parts d). hull_is_empty p"
      and Q = hull_is_empty, OF all_hulls_empty_add hull_is_empty_steps(1) hull_is_empty_steps(2)
        hull_is_empty_steps(3) all_hulls_empty_init]
  show "hierarchical_decomposition junk stl max_d thr = Some d \<Longrightarrow>
           \<forall>p \<in> set (parts d). hull_is_empty p"
    using inv(1)[of junk stl max_d thr d] by auto
  show "voxel_based_decomposition junk stl vs m = Some d \<Longrightarrow>
           \<forall>p \<in> set (parts d). hull_is_empty p"
    using inv(2)[of junk stl vs m d] by auto
qed

text \<open>
  Every part of a decomposition that the hierarchical or the voxel strategy returns
  has a hull with \<open>num_vertices = 0\<close> and \<open>vertices = NULL\<close>, and
  \<open>compute_part_concavity\<close> returns 0 for it.
\<close>

lemma stored_copies_have_empty_hulls:
  "(\<forall>d. hierarchical_decomposition junk stl max_d thr = Some d \<longrightarrow>
       (\<forall>p \<in> set (parts d). hull_num_vertices (part_hull p) = 0 \<and> hull_vertices (part_hull p) = None \<and>
                             compute_part_concavity p stl = 0)) \<and>
   (\<forall>d. voxel_based_decomposition junk stl vs m = Some d \<longrightarrow>
       (\<forall>p \<in> set (parts d). hull_num_vertices (part_hull p) = 0 \<and> hull_vertices (part_hull p) = None \<and>
                             compute_part_concavity p stl = 0))"
proof -
  have concl: "hull_num_vertices (part_hull p) = 0 \<and> hull_vertices (part_hull p) = None \<and>
               compute_part_concavity p stl = 0" if "hull_is_empty p" for p
    using that by (simp add: hull_is_empty_def compute_part_concavity_empty_hull)
  have "\<forall>p \<in> set (parts d). hull_is_empty p"
    if "hierarchical_decomposition junk stl max_d thr = Some d" for d
    using hulls_empty_inv(1)[OF that] by auto
  moreover have "\<forall>p \<in> set (parts d). hull_is_empty p"
    if "voxel_based_decomposition junk stl vs m = Some d" for d
    using hulls_empty_inv(2)[OF that] by auto
  ultimately show ?thesis
    using concl by blast
qed

text \<open>
  C10, for the approximate strategy, on \<open>slab_mesh\<close>. The strategy never writes to a
  hull either, but the one pointer in the decomposition it returns is the pointer to
  the initial part, which it has released. Whatever the released block holds
  (\<open>stale\<close>), that is the part read through the pointer, and the quality has been
  computed from its volume; when the block holds the allocator's link and key, the
  hull read through the pointer has a vertex pointer that is not NULL and a vertex
  count of 1, where the claim says NULL and 0.
\<close>

theorem approximate_returns_released_part:
  "approximate_convex_decomposition stale junk_zero slab_mesh 8 (4 / 5) (1 / 10)
     = Some (Some (slab_released_decomposition (volume (stale [])), {[]})) \<and>
   parts (slab_released_decomposition v) = [\<lparr>ref_block = [], ref_part = slab_whole_part\<rparr>] \<and>
   read_part stale {[]} \<lparr>ref_block = [], ref_part = slab_whole_part\<rparr> = stale [] \<and>
   hull_num_vertices
     (part_hull (read_part stale_links {[]} \<lparr>ref_block = [], ref_part = slab_whole_part\<rparr>)) = 1 \<and>
   hull_vertices
     (part_hull (read_part stale_links {[]} \<lparr>ref_block = [], ref_part = slab_whole_part\<rparr>))
     = Some []"
  using approximate_slab_mesh[of stale]
  by (simp add: slab_released_decomposition_def read_part_def stale_links_def)

subsection \<open>Quality\<close>

lemma foldl_sum:
  "foldl (\<lambda>a p. a + g p) a0 ps = a0 + sum_list (map g ps)" for a0 :: real
  by (induction ps arbitrary: a0) simp_all

lemma compute_decomposition_quality_variance:
  assumes "total_volume d = sum_list (map volume (parts d))"
  shows "compute_decomposition_quality volume d =
           (if parts d = [] then 0 else 1 / (1 + population_variance (map volume (parts d))))"
proof -
  define avg where "avg = sum_list (map volume (parts d)) / real (length (parts d))"
  have "foldl (\<lambda>variance p. variance + (volume p - avg) * (volume p - avg)) 0 (parts d)
          = sum_list (map (\<lambda>x. (x - avg) * (x - avg)) (map volume (parts d)))"
    using foldl_sum[of "\<lambda>p. (volume p - avg) * (volume p - avg)" 0 "parts d"]
    by (simp add: comp_def)
  then show ?thesis
    using assms
    by (simp add: compute_decomposition_quality_def population_variance_def Let_def avg_def)
qed

lemma population_variance_nonneg: "0 \<le> population_variance xs"
proof -
  have "0 \<le> sum_list (map (\<lambda>x. (x - m) * (x - m)) xs)" for m :: real
    by (rule sum_list_nonneg) auto
  then show ?thesis
    by (simp add: population_variance_def Let_def)
qed

lemma population_variance_zero_iff:
  assumes "xs \<noteq> []"
  shows "population_variance xs = 0 \<longleftrightarrow> (\<forall>x \<in> set xs. \<forall>y \<in> set xs. x = y)"
proof -
  define m where "m = sum_list xs / real (length xs)"
  have len: "0 < real (length xs)" using assms by simp
  have "population_variance xs = 0 \<longleftrightarrow> sum_list (map (\<lambda>x. (x - m) * (x - m)) xs) = 0"
    using len by (simp add: population_variance_def m_def Let_def)
  also have "\<dots> \<longleftrightarrow> (\<forall>x \<in> set xs. (x - m) * (x - m) = 0)"
    by (subst sum_list_nonneg_eq_0_iff) auto
  also have "\<dots> \<longleftrightarrow> (\<forall>x \<in> set xs. x = m)" by simp
  also have "\<dots> \<longleftrightarrow> (\<forall>x \<in> set xs. \<forall>y \<in> set xs. x = y)"
  proof
    assume "\<forall>x \<in> set xs. x = m"
    then show "\<forall>x \<in> set xs. \<forall>y \<in> set xs. x = y" by metis
  next
    assume eq: "\<forall>x \<in> set xs. \<forall>y \<in> set xs. x = y"
    obtain c where c: "c \<in> set xs" using assms by (cases xs) auto
    with eq have all: "\<forall>x \<in> set xs. x = c" by blast
    then have "xs = replicate (length xs) c"
      by (simp add: replicate_length_same)
    then have "sum_list xs = real (length xs) * c"
      by (metis sum_list_replicate)
    then have "m = c" using len by (simp add: m_def)
    with all show "\<forall>x \<in> set xs. x = m" by metis
  qed
  finally show ?thesis .
qed

lemma quality_as_specified_intro:
  assumes "total_volume d0 = sum_list (map volume (parts d0))"
    and "d = d0\<lparr>decomposition_quality := compute_decomposition_quality volume d0\<rparr>"
  shows "quality_as_specified d"
proof -
  let ?v = "population_variance (map volume (parts d))"
  have q: "decomposition_quality d = (if parts d = [] then 0 else 1 / (1 + ?v))"
    using compute_decomposition_quality_variance[OF assms(1)] assms(2) by simp
  have nn: "0 \<le> ?v" by (rule population_variance_nonneg)
  {
    assume ne: "parts d \<noteq> []"
    then have qq: "decomposition_quality d = 1 / (1 + ?v)" using q by simp
    have "0 < decomposition_quality d" "decomposition_quality d \<le> 1"
      using nn by (simp_all add: qq)
    moreover have "decomposition_quality d = 1 \<longleftrightarrow> ?v = 0"
      using nn by (simp add: qq)
    moreover have "?v = 0 \<longleftrightarrow> (\<forall>p \<in> set (parts d). \<forall>p' \<in> set (parts d). volume p = volume p')"
      using population_variance_zero_iff[of "map volume (parts d)"] ne by auto
    ultimately have "0 < decomposition_quality d \<and> decomposition_quality d \<le> 1 \<and>
        (decomposition_quality d = 1 \<longleftrightarrow>
           (\<forall>p \<in> set (parts d). \<forall>p' \<in> set (parts d). volume p = volume p'))"
      by simp
  }
  with q show ?thesis
    unfolding quality_as_specified_def by blast
qed

lemma total_volume_add:
  "total_volume d = sum_list (map volume (parts d)) \<Longrightarrow>
   total_volume (convex_decomposition_add_part volume d p)
     = sum_list (map volume (parts (convex_decomposition_add_part volume d p)))"
  by (simp add: convex_decomposition_add_part_def Let_def)

lemma total_volume_init:
  "total_volume ((convex_decomposition_create c)\<lparr>strategy := s\<rparr>)
     = sum_list (map volume (parts ((convex_decomposition_create c)\<lparr>strategy := s\<rparr>)))"
  by (simp add: convex_decomposition_create_def)

lemma strategies_quality:
  shows "hierarchical_decomposition junk stl max_d thr = Some d \<Longrightarrow> quality_as_specified d"
    and "voxel_based_decomposition junk stl vs m = Some d \<Longrightarrow> quality_as_specified d"
proof -
  note inv = strategies_inv[where I = "\<lambda>d. total_volume d = sum_list (map volume (parts d))"
      and Q = "\<lambda>p. True", OF total_volume_add TrueI TrueI TrueI total_volume_init]
  show "hierarchical_decomposition junk stl max_d thr = Some d \<Longrightarrow> quality_as_specified d"
    using inv(1)[of junk stl max_d thr d] quality_as_specified_intro by blast
  show "voxel_based_decomposition junk stl vs m = Some d \<Longrightarrow> quality_as_specified d"
    using inv(2)[of junk stl vs m d] quality_as_specified_intro by blast
qed


text \<open>
  C6, as the specification has it, puts the quality of every decomposition in
  \<open>(0, 1]\<close>. A decomposition without parts has quality 0: on \<open>slab_mesh\<close> with voxels
  of size 20 all four triangles fall into one cell, which is below the threshold 5, so
  no part is emitted.
\<close>

theorem quality_zero_parts_counterexample:
  "voxel_based_decomposition junk_zero slab_mesh 20 5 =
     Some \<lparr>parts = [], decomp_capacity = 100, strategy = DECOMP_VOXEL_BASED,
            total_volume = 0, decomposition_quality = 0\<rparr>"
  by (simp add: voxel_eval slab_mesh_fields part_eval)

text \<open>
  C6, amended. For every decomposition returned by the hierarchical or the voxel
  strategy the quality is 0 when it has no part; otherwise it is \<open>1 / (1 + v)\<close>, with
  \<open>v\<close> the population variance of the part volumes around their mean, it lies in
  \<open>(0, 1]\<close>, and it is 1 exactly when all parts have the same volume. Nothing is said
  of the approximate strategy, which computes the quality from parts it has released.
\<close>

theorem decomposition_quality_formula:
  "(\<forall>d. hierarchical_decomposition junk stl max_d thr = Some d \<longrightarrow> quality_as_specified d) \<and>
   (\<forall>d. voxel_based_decomposition junk stl vs m = Some d \<longrightarrow> quality_as_specified d)"
  using strategies_quality by blast

theorem decomposition_quality_formula_witness:
  "hierarchical_decomposition junk_zero slab_mesh 3 (4 / 5)
     = Some (slab_decomposition DECOMP_HIERARCHICAL 8) \<and>
   voxel_based_decomposition junk_zero slab_mesh 10 1 = Some slab_voxel_decomposition \<and>
   quality_as_specified (slab_decomposition DECOMP_HIERARCHICAL 8) \<and>
   quality_as_specified slab_voxel_decomposition \<and>
   parts slab_voxel_decomposition \<noteq> [] \<and>
   decomposition_quality slab_voxel_decomposition = 100 / 101"
proof -
  have h: "hierarchical_decomposition junk_zero slab_mesh 3 (4 / 5)
     = Some (slab_decomposition DECOMP_HIERARCHICAL 8)"
    and v: "voxel_based_decomposition junk_zero slab_mesh 10 1 = Some slab_voxel_decomposition"
    by (rule hierarchical_slab_mesh, rule voxel_slab_mesh_10_1)
  have q: "parts slab_voxel_decomposition \<noteq> []"
    "decomposition_quality slab_voxel_decomposition = 100 / 101"
    by (simp_all add: slab_voxel_decomposition_def)
  from decomposition_quality_formula[of junk_zero slab_mesh 3 "4 / 5" 10 1] h v q
  show ?thesis by blast
qed

subsection \<open>The voxel strategy\<close>

text \<open>
  The three nested loops over the grid are one loop over \<open>voxel_cells\<close>; after the
  counting loop a cell of the grid holds the number of triangles computed into it; a
  part created for a cell receives exactly the triangles of that cell, its capacity
  being their number. So the parts of the result are, in grid order, the triangle lists
  of the cells of the grid that hold at least \<open>min_triangles_per_voxel\<close> triangles
  and at least one.
\<close>

lemma distinct_voxel_cells: "distinct (voxel_cells stl vs)"
  unfolding voxel_cells_def by (intro distinct_product) simp_all

lemma foldl_product:
  "foldl (\<lambda>d x. foldl (\<lambda>d y. f d (x, y)) d ys) d xs = foldl f d (List.product xs ys)"
proof (induction xs arbitrary: d)
  case Nil
  then show ?case by simp
next
  case (Cons x xs)
  have "foldl (\<lambda>d y. f d (x, y)) d ys = foldl f d (map (Pair x) ys)"
    by (simp add: foldl_map)
  then show ?case
    by (simp add: Cons.IH)
qed

lemma voxel_loops_product:
  "foldl (\<lambda>decomp x.
      foldl (\<lambda>decomp y.
         foldl (\<lambda>decomp z. f decomp (x, y, z)) decomp zs) decomp ys) decomp xs
   = foldl f decomp (List.product xs (List.product ys zs))"
proof -
  have "foldl (\<lambda>decomp y. foldl (\<lambda>decomp z. f decomp (x, y, z)) decomp zs) decomp ys
          = foldl (\<lambda>decomp yz. f decomp (x, yz)) decomp (List.product ys zs)" for x decomp
    using foldl_product[of "\<lambda>d yz. f d (x, yz)" zs decomp ys] by simp
  then show ?thesis
    using foldl_product[of f "List.product ys zs" decomp xs] by simp
qed

lemma voxel_count_step_apply:
  "voxel_count_step stl vs g i cell =
     (if triangle_voxel stl vs i = cell \<and> cell \<in> set (voxel_cells stl vs) then g cell + 1
      else g cell)"
proof -
  obtain x y z where v: "triangle_voxel stl vs i = (x, y, z)"
    by (cases "triangle_voxel stl vs i") auto
  have m: "(x, y, z) \<in> set (voxel_cells stl vs) \<longleftrightarrow>
           0 \<le> x \<and> x < num_voxels stl vs 0 \<and> 0 \<le> y \<and> y < num_voxels stl vs 1 \<and>
           0 \<le> z \<and> z < num_voxels stl vs 2"
    unfolding voxel_cells_def by auto
  show ?thesis
    unfolding voxel_count_step_def v using m by (auto simp del: One_nat_def)
qed

lemma count_voxels_foldl:
  "foldl (voxel_count_step stl vs) g xs cell
   = g cell + (if cell \<in> set (voxel_cells stl vs)
               then length (filter (\<lambda>i. triangle_voxel stl vs i = cell) xs) else 0)"
  by (induction xs arbitrary: g) (simp_all add: voxel_count_step_apply)

lemma count_voxels_eq:
  "count_voxels stl vs cell =
     (if cell \<in> set (voxel_cells stl vs) then length (voxel_bucket stl vs cell) else 0)"
  unfolding count_voxels_def voxel_bucket_def by (simp add: count_voxels_foldl)

lemma fill_part:
  assumes "0 < part_capacity p \<or> filter P xs = []"
  shows "triangle_indices (foldl (\<lambda>part i. if P i then convex_part_add_triangle part i else part) p xs)
           = triangle_indices p @ filter P xs"
  using assms
proof (induction xs arbitrary: p)
  case Nil
  then show ?case by simp
next
  case (Cons i xs)
  show ?case
  proof (cases "P i")
    case True
    with Cons.prems have cap: "0 < part_capacity p" by auto
    from add_triangle_stores[OF cap, of i] Cons.IH[of "convex_part_add_triangle p i"] True
    show ?thesis by simp
  next
    case False
    with Cons show ?thesis by simp
  qed
qed

lemma add_part_stores:
  "0 < decomp_capacity d \<Longrightarrow>
   parts (convex_decomposition_add_part volume d p) = parts d @ [p] \<and>
   0 < decomp_capacity (convex_decomposition_add_part volume d p)"
  by (simp add: convex_decomposition_add_part_def Let_def)

lemma voxel_emit_parts:
  assumes "cell \<in> set (voxel_cells stl vs)" "0 < decomp_capacity d"
  shows "part_triangles (voxel_emit junk stl vs m (count_voxels stl vs) d cell)
           = part_triangles d @
             (if m \<le> length (voxel_bucket stl vs cell) \<and> voxel_bucket stl vs cell \<noteq> []
              then [voxel_bucket stl vs cell] else []) \<and>
         0 < decomp_capacity (voxel_emit junk stl vs m (count_voxels stl vs) d cell)"
proof -
  define c where "c = length (voxel_bucket stl vs cell)"
  define part where "part = foldl (\<lambda>part i. if triangle_voxel stl vs i = cell
                      then convex_part_add_triangle part i else part)
                     (convex_part_create (junk [nat (fst cell), nat (fst (snd cell)), nat (snd (snd cell))]) c)
                     [0..<num_triangles stl]"
  have cnt: "count_voxels stl vs cell = c"
    using assms(1) by (simp add: count_voxels_eq c_def)
  have "0 < c \<or> filter (\<lambda>i. triangle_voxel stl vs i = cell) [0..<num_triangles stl] = []"
    by (auto simp: c_def voxel_bucket_def)
  then have tri: "triangle_indices part = voxel_bucket stl vs cell"
    unfolding part_def voxel_bucket_def
    by (subst fill_part) simp_all
  have emit: "voxel_emit junk stl vs m (count_voxels stl vs) d cell =
          (if m \<le> c then
             (if triangle_indices part \<noteq> []
              then convex_decomposition_add_part volume d (convex_part_compute_properties part stl)
              else d)
           else d)"
    by (simp add: voxel_emit_def cnt part_def Let_def)
  show ?thesis
    unfolding emit using add_part_stores[OF assms(2), of "convex_part_compute_properties part stl"]
      assms(2) tri
    by (simp add: c_def part_triangles_def)
qed

lemma voxel_emit_foldl:
  assumes "set cells \<subseteq> set (voxel_cells stl vs)" "0 < decomp_capacity d"
  shows "part_triangles (foldl (voxel_emit junk stl vs m (count_voxels stl vs)) d cells)
           = part_triangles d @
             map (voxel_bucket stl vs)
               (filter (\<lambda>cell. m \<le> length (voxel_bucket stl vs cell) \<and>
                              voxel_bucket stl vs cell \<noteq> []) cells)"
  using assms
proof (induction cells arbitrary: d)
  case Nil
  then show ?case by simp
next
  case (Cons cell cells)
  from Cons.prems have "cell \<in> set (voxel_cells stl vs)" "set cells \<subseteq> set (voxel_cells stl vs)"
    by simp_all
  with voxel_emit_parts[OF this(1) Cons.prems(2), where junk = junk and m = m] Cons.IH
  show ?case by simp
qed

lemma voxel_based_decomposition_parts:
  assumes "voxel_based_decomposition junk stl vs m = Some d"
  shows "part_triangles d =
           map (voxel_bucket stl vs)
             (filter (\<lambda>cell. m \<le> length (voxel_bucket stl vs cell) \<and>
                            voxel_bucket stl vs cell \<noteq> []) (voxel_cells stl vs))"
proof -
  define d0 :: "convex_part_t convex_decomposition_t"
    where "d0 = (convex_decomposition_create 100)\<lparr>strategy := DECOMP_VOXEL_BASED\<rparr>"
  have d0: "part_triangles d0 = []" "0 < decomp_capacity d0"
    by (simp_all add: d0_def convex_decomposition_create_def part_triangles_def)
  from assms have "d = (foldl (voxel_emit junk stl vs m (count_voxels stl vs)) d0 (voxel_cells stl vs))
      \<lparr>decomposition_quality := compute_decomposition_quality volume
          (foldl (voxel_emit junk stl vs m (count_voxels stl vs)) d0 (voxel_cells stl vs))\<rparr>"
    unfolding voxel_based_decomposition_def Let_def voxel_loops_product d0_def voxel_cells_def
    by (simp split: if_splits)
  then have "part_triangles d =
      part_triangles (foldl (voxel_emit junk stl vs m (count_voxels stl vs)) d0 (voxel_cells stl vs))"
    by (simp add: part_triangles_def)
  then show ?thesis
    using voxel_emit_foldl[OF subset_refl d0(2), where junk = junk and m = m and stl = stl and vs = vs] d0(1) by simp
qed

lemma voxel_bucket_mem:
  "i \<in> set (voxel_bucket stl vs cell) \<longleftrightarrow> i < num_triangles stl \<and> triangle_voxel stl vs i = cell"
  by (auto simp: voxel_bucket_def)

lemma distinct_voxel_bucket: "distinct (voxel_bucket stl vs cell)"
  by (simp add: voxel_bucket_def)

lemma voxel_bucket_disjoint:
  "cell \<noteq> cell' \<Longrightarrow> set (voxel_bucket stl vs cell) \<inter> set (voxel_bucket stl vs cell') = {}"
  by (auto simp: voxel_bucket_mem)

lemma voxel_bucket_inj:
  assumes "voxel_bucket stl vs cell = voxel_bucket stl vs cell'" "voxel_bucket stl vs cell \<noteq> []"
  shows "cell = cell'"
proof (rule ccontr)
  assume "cell \<noteq> cell'"
  from voxel_bucket_disjoint[OF this, of stl vs] assms show False
    by simp
qed

lemma distinct_concat_voxel_bucket:
  assumes "distinct cells"
  shows "distinct (concat (map (voxel_bucket stl vs)
           (filter (\<lambda>cell. m \<le> length (voxel_bucket stl vs cell) \<and>
                          voxel_bucket stl vs cell \<noteq> []) cells)))"
proof (rule distinct_concat)
  show "distinct (map (voxel_bucket stl vs)
           (filter (\<lambda>cell. m \<le> length (voxel_bucket stl vs cell) \<and>
                          voxel_bucket stl vs cell \<noteq> []) cells))"
    using assms by (auto simp: distinct_map inj_on_def dest: voxel_bucket_inj)
next
  fix ys
  assume "ys \<in> set (map (voxel_bucket stl vs)
           (filter (\<lambda>cell. m \<le> length (voxel_bucket stl vs cell) \<and>
                          voxel_bucket stl vs cell \<noteq> []) cells))"
  then show "distinct ys" by (auto simp: distinct_voxel_bucket)
next
  fix ys zs
  assume "ys \<in> set (map (voxel_bucket stl vs)
           (filter (\<lambda>cell. m \<le> length (voxel_bucket stl vs cell) \<and>
                          voxel_bucket stl vs cell \<noteq> []) cells))"
    "zs \<in> set (map (voxel_bucket stl vs)
           (filter (\<lambda>cell. m \<le> length (voxel_bucket stl vs cell) \<and>
                          voxel_bucket stl vs cell \<noteq> []) cells))"
    "ys \<noteq> zs"
  then obtain c c' where "ys = voxel_bucket stl vs c" "zs = voxel_bucket stl vs c'" "c \<noteq> c'"
    by (metis (no_types, lifting) imageE list.set_map)
  then show "set ys \<inter> set zs = {}"
    using voxel_bucket_disjoint by simp
qed

lemma distinct_concat_nth_disjoint:
  assumes "distinct (concat xss)" "j < k" "k < length xss"
  shows "set (xss ! j) \<inter> set (xss ! k) = {}"
proof -
  have "xss = take k xss @ xss ! k # drop (Suc k) xss"
    using assms(3) by (simp add: id_take_nth_drop)
  then have "distinct (concat (take k xss) @ xss ! k @ concat (drop (Suc k) xss))"
    using assms(1) by (metis concat.simps(2) concat_append)
  then have "set (concat (take k xss)) \<inter> set (xss ! k) = {}"
    by auto
  moreover have "xss ! j \<in> set (take k xss)"
    using assms(2,3) by (metis in_set_conv_nth length_take min.absorb2 less_imp_le nth_take)
  ultimately show ?thesis by auto
qed

text \<open>
  What remains is to see that the cell the code computes for a triangle, by dividing
  the offset of the centroid from the lower corner by the cell size and dropping the
  fraction, is the cell of the grid in which the centroid lies. Below the lower corner
  the two differ (dropping the fraction rounds toward zero), and a quotient beyond the
  range of \<open>int\<close> gives no cell at all; neither happens when the bounds enclose the
  mesh and the grid could be allocated.
\<close>

lemma c_int_of_float_nonneg:
  assumes "0 \<le> r"
  shows "c_int_of_float r = (if r < 2147483648 then \<lfloor>r\<rfloor> else - 2147483648)"
proof -
  have "0 \<le> \<lfloor>r\<rfloor>" using assms by simp
  moreover have "\<lfloor>r\<rfloor> \<le> 2147483647 \<longleftrightarrow> r < 2147483648"
    by (simp add: floor_le_iff)
  ultimately show ?thesis
    using assms by (simp add: c_int_of_float_def Let_def)
qed

lemma num_voxels_nonneg:
  assumes "0 < vs" "bounds stl ! k \<le> bounds stl ! (k + 3)" "0 \<le> num_voxels stl vs k"
  shows "num_voxels stl vs k = \<lfloor>(bounds stl ! (k + 3) - bounds stl ! k) / vs\<rfloor> + 1"
    and "(bounds stl ! (k + 3) - bounds stl ! k) / vs < 2147483648"
proof -
  define q where "q = (bounds stl ! (k + 3) - bounds stl ! k) / vs"
  have q: "0 \<le> q"
    using assms(1,2) by (simp add: q_def)
  have n: "num_voxels stl vs k = c_int_of_float q + 1"
    by (simp add: num_voxels_def q_def)
  show lt: "(bounds stl ! (k + 3) - bounds stl ! k) / vs < 2147483648"
  proof (rule ccontr)
    assume "\<not> (bounds stl ! (k + 3) - bounds stl ! k) / vs < 2147483648"
    then have "c_int_of_float q = - 2147483648"
      using c_int_of_float_nonneg[OF q] by (simp add: q_def)
    with assms(3) n show False by simp
  qed
  then have "c_int_of_float q = \<lfloor>q\<rfloor>"
    using c_int_of_float_nonneg[OF q] by (simp add: q_def)
  with n show "num_voxels stl vs k = \<lfloor>(bounds stl ! (k + 3) - bounds stl ! k) / vs\<rfloor> + 1"
    by (simp add: q_def)
qed

lemma num_voxels_not_zero:
  assumes "0 < vs" "bounds stl ! k \<le> bounds stl ! (k + 3)"
  shows "num_voxels stl vs k \<noteq> 0"
proof -
  define q where "q = (bounds stl ! (k + 3) - bounds stl ! k) / vs"
  have q: "0 \<le> q"
    using assms(1,2) by (simp add: q_def)
  then have fl: "0 \<le> \<lfloor>q\<rfloor>" by simp
  have n: "num_voxels stl vs k = c_int_of_float q + 1"
    by (simp add: num_voxels_def q_def)
  show ?thesis
  proof (cases "q < 2147483648")
    case True
    then have "c_int_of_float q = \<lfloor>q\<rfloor>"
      using c_int_of_float_nonneg[OF q] by simp
    with n fl show ?thesis by linarith
  next
    case False
    then have "c_int_of_float q = - 2147483648"
      using c_int_of_float_nonneg[OF q] by simp
    with n show ?thesis by simp
  qed
qed

lemma centroid_between:
  assumes "bounds_enclose_mesh stl" "i < num_triangles stl" "k < 3"
  shows "bounds stl ! k \<le> centroid_coordinate stl k i"
    and "centroid_coordinate stl k i \<le> bounds stl ! (k + 3)"
proof -
  have v: "bounds stl ! k \<le> vertices (triangles stl ! i) ! j ! k \<and>
        vertices (triangles stl ! i) ! j ! k \<le> bounds stl ! (k + 3)" if "j < 3" for j
    using assms that unfolding bounds_enclose_mesh_def by blast
  from v[of 0] v[of 1] v[of 2]
  show "bounds stl ! k \<le> centroid_coordinate stl k i"
    and "centroid_coordinate stl k i \<le> bounds stl ! (k + 3)"
    by (simp_all add: centroid_coordinate_def)
qed

lemma bounds_ordered:
  assumes "bounds_enclose_mesh stl" "0 < num_triangles stl" "k < 3"
  shows "bounds stl ! k \<le> bounds stl ! (k + 3)"
  using centroid_between[OF assms(1,2,3)] by simp

text \<open>The grid was allocated: all three counts are positive and none overflowed.\<close>

lemma grid_allocated:
  assumes "0 < vs" "bounds_enclose_mesh stl" "0 < num_triangles stl"
    "\<not> voxel_grid_alloc_fails stl vs" "k < 3"
  shows "num_voxels stl vs k = \<lfloor>(bounds stl ! (k + 3) - bounds stl ! k) / vs\<rfloor> + 1"
    and "(bounds stl ! (k + 3) - bounds stl ! k) / vs < 2147483648"
proof -
  note o = bounds_ordered[OF assms(2,3)]
  have nz: "num_voxels stl vs j \<noteq> 0" if "j < 3" for j
    using num_voxels_not_zero[OF assms(1) o[OF that]] .
  from assms(4) nz[of 0] nz[of 1] nz[of 2]
  have "0 \<le> num_voxels stl vs 0" "0 \<le> num_voxels stl vs 1" "0 \<le> num_voxels stl vs 2"
    unfolding voxel_grid_alloc_fails_def by auto
  moreover have "k = 0 \<or> k = 1 \<or> k = 2"
    using assms(5) by arith
  ultimately have "0 \<le> num_voxels stl vs k"
    by blast
  from num_voxels_nonneg[OF assms(1) o[OF assms(5)] this]
  show "num_voxels stl vs k = \<lfloor>(bounds stl ! (k + 3) - bounds stl ! k) / vs\<rfloor> + 1"
    and "(bounds stl ! (k + 3) - bounds stl ! k) / vs < 2147483648"
    by simp_all
qed

lemma voxel_index_floor:
  assumes "0 < vs" "bounds_enclose_mesh stl" "i < num_triangles stl"
    "\<not> voxel_grid_alloc_fails stl vs" "k < 3"
  shows "c_int_of_float ((centroid_coordinate stl k i - bounds stl ! k) / vs)
           = \<lfloor>(centroid_coordinate stl k i - bounds stl ! k) / vs\<rfloor>"
proof -
  have n: "0 < num_triangles stl" using assms(3) by simp
  note c = centroid_between[OF assms(2,3,5)]
  define q where "q = (centroid_coordinate stl k i - bounds stl ! k) / vs"
  have q: "0 \<le> q"
    using c(1) assms(1) by (simp add: q_def)
  have "q \<le> (bounds stl ! (k + 3) - bounds stl ! k) / vs"
    using c(2) assms(1) by (simp add: q_def divide_right_mono)
  with grid_allocated(2)[OF assms(1,2) n assms(4,5)] have "q < 2147483648"
    by simp
  then have "c_int_of_float q = \<lfloor>q\<rfloor>"
    using c_int_of_float_nonneg[OF q] by simp
  then show ?thesis
    by (simp add: q_def)
qed

lemma triangle_voxel_floor:
  assumes "0 < vs" "bounds_enclose_mesh stl" "i < num_triangles stl"
    "\<not> voxel_grid_alloc_fails stl vs"
  shows "triangle_voxel stl vs i =
           (\<lfloor>(centroid_coordinate stl 0 i - bounds stl ! 0) / vs\<rfloor>,
            \<lfloor>(centroid_coordinate stl 1 i - bounds stl ! 1) / vs\<rfloor>,
            \<lfloor>(centroid_coordinate stl 2 i - bounds stl ! 2) / vs\<rfloor>)"
  using voxel_index_floor[OF assms, of 0] voxel_index_floor[OF assms, of 1]
    voxel_index_floor[OF assms, of 2]
  by (simp add: triangle_voxel_def Let_def centroid_coordinate_def)

lemma in_slab_floor:
  assumes "0 < vs"
  shows "lo + of_int x * vs \<le> c \<and> c < lo + (of_int x + 1) * vs \<longleftrightarrow> \<lfloor>(c - lo) / vs\<rfloor> = x"
proof -
  have "lo + of_int x * vs \<le> c \<longleftrightarrow> of_int x \<le> (c - lo) / vs"
    using assms by (simp add: pos_le_divide_eq algebra_simps)
  moreover have "c < lo + (of_int x + 1) * vs \<longleftrightarrow> (c - lo) / vs < of_int x + 1"
    using assms by (simp add: pos_divide_less_eq algebra_simps)
  ultimately show ?thesis
    by (simp add: floor_eq_iff)
qed

lemma centroid_in_cell_triangle_voxel:
  assumes "0 < vs" "bounds_enclose_mesh stl" "i < num_triangles stl"
    "\<not> voxel_grid_alloc_fails stl vs"
  shows "centroid_in_cell stl vs i cell \<longleftrightarrow> triangle_voxel stl vs i = cell"
proof -
  obtain x y z where cell: "cell = (x, y, z)" by (cases cell) auto
  show ?thesis
    unfolding triangle_voxel_floor[OF assms] cell centroid_in_cell_def
    using in_slab_floor[OF assms(1), of "bounds stl ! 0" x "centroid_coordinate stl 0 i"]
      in_slab_floor[OF assms(1), of "bounds stl ! 1" y "centroid_coordinate stl 1 i"]
      in_slab_floor[OF assms(1), of "bounds stl ! 2" z "centroid_coordinate stl 2 i"]
    by auto
qed

lemma cell_population_voxel_bucket:
  assumes "0 < vs" "bounds_enclose_mesh stl" "\<not> voxel_grid_alloc_fails stl vs"
  shows "cell_population stl vs cell = voxel_bucket stl vs cell"
  unfolding cell_population_def voxel_bucket_def
  by (rule filter_cong[OF refl])
     (simp add: centroid_in_cell_triangle_voxel[OF assms(1,2) _ assms(3)])

lemma in_grid_axis:
  assumes "0 < vs" "lo \<le> hi"
  shows "x \<in> set [0..\<lfloor>(hi - lo) / vs\<rfloor> + 1 - 1] \<longleftrightarrow> 0 \<le> x \<and> lo + of_int x * vs \<le> hi"
proof -
  have "lo + of_int x * vs \<le> hi \<longleftrightarrow> of_int x \<le> (hi - lo) / vs"
    using assms by (simp add: pos_le_divide_eq algebra_simps)
  then show ?thesis
    by (simp add: le_floor_iff)
qed

lemma cell_in_grid_voxel_cells:
  assumes "0 < vs" "bounds_enclose_mesh stl" "0 < num_triangles stl"
    "\<not> voxel_grid_alloc_fails stl vs"
  shows "cell \<in> set (voxel_cells stl vs) \<longleftrightarrow> cell_in_grid stl vs cell"
proof -
  obtain x y z where cell: "cell = (x, y, z)" by (cases cell) auto
  note o = bounds_ordered[OF assms(2,3)]
  note g = grid_allocated(1)[OF assms]
  show ?thesis
    unfolding cell voxel_cells_def cell_in_grid_def
    using in_grid_axis[OF assms(1) o[of 0], of x] in_grid_axis[OF assms(1) o[of 1], of y]
      in_grid_axis[OF assms(1) o[of 2], of z] g[of 0] g[of 1] g[of 2]
    by simp
qed

lemma stl_calculate_bounds_encloses:
  assumes "mesh_finite stl"
  shows "bounds_enclose_mesh (stl_calculate_bounds stl)"
proof (cases "num_triangles stl = 0")
  case True
  then show ?thesis by (simp add: stl_calculate_bounds_def bounds_enclose_mesh_def)
next
  case False
  let ?b = "foldl (\<lambda>b i. expand_bounds_triangle b (triangles stl ! i))
              [FLT_MAX, FLT_MAX, FLT_MAX, - FLT_MAX, - FLT_MAX, - FLT_MAX] [0..<num_triangles stl]"
  have ne: "[0..<num_triangles stl] \<noteq> []" using False by simp
  have "?b ! k \<le> vertices (triangles stl ! i) ! j ! k \<and>
        vertices (triangles stl ! i) ! j ! k \<le> ?b ! (k + 3)"
    if "i < num_triangles stl" "j < 3" "k < 3" for i j k
  proof -
    have fin: "\<forall>x \<in> set (leaf_coords stl [0..<num_triangles stl] k). - FLT_MAX \<le> x \<and> x \<le> FLT_MAX"
      by (rule leaf_coords_finite[OF assms _ that(3)]) simp
    have mem: "vertices (triangles stl ! i) ! j ! k \<in> set (leaf_coords stl [0..<num_triangles stl] k)"
      using that(1,2) unfolding leaf_coords_def
      by (auto intro!: bexI[of _ i] image_eqI[of _ _ j])
    have "Min (set (leaf_coords stl [0..<num_triangles stl] k)) \<le> vertices (triangles stl ! i) ! j ! k"
      "vertices (triangles stl ! i) ! j ! k \<le> Max (set (leaf_coords stl [0..<num_triangles stl] k))"
      using mem by simp_all
    then show ?thesis
      using leaf_bounds_exact[OF ne that(3) fin] by simp
  qed
  then show ?thesis
    using False by (simp add: stl_calculate_bounds_def bounds_enclose_mesh_def)
qed

lemma voxel_grid_mesh_5_2:
  "voxel_based_decomposition junk_zero grid_mesh 5 2 = Some grid_voxel_decomposition"
  by (simp add: voxel_eval part_eval grid_mesh_def grid_voxel_decomposition_def grid_part_low_def
      grid_part_high_def empty_hull_zero_def)

lemma bounds_enclose_grid_mesh: "bounds_enclose_mesh grid_mesh"
  by (simp add: bounds_enclose_mesh_def grid_mesh_def mk_triangle_def All_less_Suc2 numeral_3_eq_3
      numeral_eq_Suc)

lemma grid_mesh_cells:
  "cell_in_grid grid_mesh 5 (0, 1, 0)"
  "cell_population grid_mesh 5 (0, 1, 0) = [1, 5]"
  "centroid_in_cell grid_mesh 5 2 (0, 0, 1)"
  "cell_population grid_mesh 5 (0, 0, 1) = [2]"
  by (simp_all add: cell_in_grid_def cell_population_def centroid_in_cell_def
      centroid_coordinate_def grid_mesh_def mk_triangle_def upt_rec)

lemma voxel_based_decomposition_some:
  assumes "voxel_based_decomposition junk stl vs m = Some d"
  shows "0 < num_triangles stl" "0 < vs" "\<not> voxel_grid_alloc_fails stl vs"
  using assms by (auto simp: voxel_based_decomposition_def split: if_splits)

lemma voxel_based_decomposition_returns:
  assumes "0 < num_triangles stl" "0 < vs" "bounds_enclose_mesh stl"
    and "\<forall>k<3. (bounds stl ! (k + 3) - bounds stl ! k) / vs < 2147483648"
  shows "\<exists>d. voxel_based_decomposition junk stl vs m = Some d"
proof -
  have "0 < num_voxels stl vs k" if "k < 3" for k
  proof -
    define q where "q = (bounds stl ! (k + 3) - bounds stl ! k) / vs"
    have q: "0 \<le> q"
      using bounds_ordered[OF assms(3,1) that] assms(2) by (simp add: q_def)
    then have fl: "0 \<le> \<lfloor>q\<rfloor>" by simp
    have "q < 2147483648" using assms(4) that by (simp add: q_def)
    then have "c_int_of_float q = \<lfloor>q\<rfloor>"
      using c_int_of_float_nonneg[OF q] by simp
    moreover have "num_voxels stl vs k = c_int_of_float q + 1"
      by (simp add: num_voxels_def q_def)
    ultimately show ?thesis using fl by linarith
  qed
  from this[of 0] this[of 1] this[of 2] have "\<not> voxel_grid_alloc_fails stl vs"
    by (simp add: voxel_grid_alloc_fails_def)
  with assms(1,2) show ?thesis
    by (simp add: voxel_based_decomposition_def Let_def)
qed

text \<open>
  C7. For a mesh whose bounds enclose it, every part that \<open>voxel_based_decomposition\<close>
  emits holds the triangles whose centroid falls in one cell of the grid, which is
  occupied and holds at least \<open>min_triangles_per_voxel\<close> triangles, and every such
  cell has its part; a triangle whose centroid falls in a cell with fewer than
  \<open>min_triangles_per_voxel\<close> triangles is in no part; no triangle is in two parts
  (nor twice in one); the parts together hold at most as many triangles as the mesh,
  and there is a run in which they hold strictly fewer.
\<close>

theorem voxel_parts_from_populated_cells:
  assumes "bounds_enclose_mesh stl"
    and "voxel_based_decomposition junk stl voxel_size min_triangles_per_voxel = Some d"
  shows "(\<forall>p \<in> set (parts d). \<exists>cell.
            cell_in_grid stl voxel_size cell \<and>
            triangle_indices p = cell_population stl voxel_size cell \<and>
            triangle_indices p \<noteq> [] \<and>
            min_triangles_per_voxel \<le> length (triangle_indices p)) \<and>
         (\<forall>cell. cell_in_grid stl voxel_size cell \<and>
            cell_population stl voxel_size cell \<noteq> [] \<and>
            min_triangles_per_voxel \<le> length (cell_population stl voxel_size cell) \<longrightarrow>
            (\<exists>p \<in> set (parts d). triangle_indices p = cell_population stl voxel_size cell)) \<and>
         (\<forall>i < num_triangles stl. \<forall>cell.
            centroid_in_cell stl voxel_size i cell \<and>
            length (cell_population stl voxel_size cell) < min_triangles_per_voxel \<longrightarrow>
            (\<forall>p \<in> set (parts d). i \<notin> set (triangle_indices p))) \<and>
         (\<forall>j k. j < k \<and> k < length (parts d) \<longrightarrow>
            set (triangle_indices (parts d ! j)) \<inter> set (triangle_indices (parts d ! k)) = {}) \<and>
         distinct (concat (part_triangles d)) \<and>
         length (concat (part_triangles d)) \<le> num_triangles stl \<and>
         (\<exists>junk' stl' voxel_size' min_triangles_per_voxel' d'.
            bounds_enclose_mesh stl' \<and>
            voxel_based_decomposition junk' stl' voxel_size' min_triangles_per_voxel' = Some d' \<and>
            length (concat (part_triangles d')) < num_triangles stl')"
proof -
  note some = voxel_based_decomposition_some[OF assms(2)]
  note pop = cell_population_voxel_bucket[OF some(2) assms(1) some(3)]
  note grid = cell_in_grid_voxel_cells[OF some(2) assms(1) some(1) some(3)]
  let ?P = "\<lambda>cell. min_triangles_per_voxel \<le> length (cell_population stl voxel_size cell) \<and>
                    cell_population stl voxel_size cell \<noteq> []"
  have pt: "part_triangles d =
              map (cell_population stl voxel_size) (filter ?P (voxel_cells stl voxel_size))"
    using voxel_based_decomposition_parts[OF assms(2)] by (simp add: pop)
  have one: "\<forall>p \<in> set (parts d). \<exists>cell.
            cell_in_grid stl voxel_size cell \<and>
            triangle_indices p = cell_population stl voxel_size cell \<and>
            triangle_indices p \<noteq> [] \<and>
            min_triangles_per_voxel \<le> length (triangle_indices p)"
  proof
    fix p assume "p \<in> set (parts d)"
    then have "triangle_indices p \<in> set (part_triangles d)"
      by (simp add: part_triangles_def)
    then obtain cell where "cell \<in> set (voxel_cells stl voxel_size)" "?P cell"
      "triangle_indices p = cell_population stl voxel_size cell"
      unfolding pt by auto
    then show "\<exists>cell. cell_in_grid stl voxel_size cell \<and>
            triangle_indices p = cell_population stl voxel_size cell \<and>
            triangle_indices p \<noteq> [] \<and>
            min_triangles_per_voxel \<le> length (triangle_indices p)"
      using grid by metis
  qed
  have all: "\<forall>cell. cell_in_grid stl voxel_size cell \<and>
            cell_population stl voxel_size cell \<noteq> [] \<and>
            min_triangles_per_voxel \<le> length (cell_population stl voxel_size cell) \<longrightarrow>
            (\<exists>p \<in> set (parts d). triangle_indices p = cell_population stl voxel_size cell)"
  proof (intro allI impI)
    fix cell
    assume c: "cell_in_grid stl voxel_size cell \<and>
            cell_population stl voxel_size cell \<noteq> [] \<and>
            min_triangles_per_voxel \<le> length (cell_population stl voxel_size cell)"
    then have "cell \<in> set (filter ?P (voxel_cells stl voxel_size))"
      using grid by simp
    then have "cell_population stl voxel_size cell \<in> set (part_triangles d)"
      unfolding pt set_map by (rule imageI)
    then show "\<exists>p \<in> set (parts d). triangle_indices p = cell_population stl voxel_size cell"
      by (auto simp: part_triangles_def)
  qed
  have two: "\<forall>i < num_triangles stl. \<forall>cell.
            centroid_in_cell stl voxel_size i cell \<and>
            length (cell_population stl voxel_size cell) < min_triangles_per_voxel \<longrightarrow>
            (\<forall>p \<in> set (parts d). i \<notin> set (triangle_indices p))"
  proof (intro allI impI ballI notI)
    fix i cell p
    assume i: "i < num_triangles stl"
      and few: "centroid_in_cell stl voxel_size i cell \<and>
            length (cell_population stl voxel_size cell) < min_triangles_per_voxel"
      and p: "p \<in> set (parts d)" and ip: "i \<in> set (triangle_indices p)"
    from one p obtain cell' where c: "triangle_indices p = cell_population stl voxel_size cell'"
      "min_triangles_per_voxel \<le> length (triangle_indices p)"
      by blast
    from ip c(1) have "centroid_in_cell stl voxel_size i cell'"
      by (simp add: cell_population_def)
    with few have "cell' = cell"
      by (simp add: centroid_in_cell_triangle_voxel[OF some(2) assms(1) i some(3)])
    with few c show False by simp
  qed
  have popf: "cell_population stl voxel_size = voxel_bucket stl voxel_size"
    by (rule ext) (rule pop)
  have dc: "distinct (concat (part_triangles d))"
    unfolding pt popf by (rule distinct_concat_voxel_bucket) (rule distinct_voxel_cells)
  have three: "\<forall>j k. j < k \<and> k < length (parts d) \<longrightarrow>
            set (triangle_indices (parts d ! j)) \<inter> set (triangle_indices (parts d ! k)) = {}"
  proof (intro allI impI)
    fix j k assume jk: "j < k \<and> k < length (parts d)"
    then have "set (part_triangles d ! j) \<inter> set (part_triangles d ! k) = {}"
      using distinct_concat_nth_disjoint[OF dc, of j k] by (simp add: part_triangles_def)
    with jk show "set (triangle_indices (parts d ! j)) \<inter> set (triangle_indices (parts d ! k)) = {}"
      by (simp add: part_triangles_def)
  qed
  have "set (concat (part_triangles d)) \<subseteq> {0..<num_triangles stl}"
    unfolding pt by (auto simp: cell_population_def)
  then have "card (set (concat (part_triangles d))) \<le> card {0..<num_triangles stl}"
    by (intro card_mono) simp_all
  then have five: "length (concat (part_triangles d)) \<le> num_triangles stl"
    using distinct_card[OF dc] by simp
  have "length (concat (part_triangles grid_voxel_decomposition)) < num_triangles grid_mesh"
    by (simp add: part_triangles_def grid_voxel_decomposition_def grid_part_low_def
        grid_part_high_def grid_mesh_def)
  with voxel_grid_mesh_5_2 bounds_enclose_grid_mesh
  have six: "\<exists>junk' stl' voxel_size' min_triangles_per_voxel' d'.
            bounds_enclose_mesh stl' \<and>
            voxel_based_decomposition junk' stl' voxel_size' min_triangles_per_voxel' = Some d' \<and>
            length (concat (part_triangles d')) < num_triangles stl'"
    by blast
  show ?thesis
    by (rule conjI[OF one conjI[OF all conjI[OF two conjI[OF three conjI[OF dc conjI[OF five six]]]]]])
qed

theorem voxel_parts_from_populated_cells_witness:
  "bounds_enclose_mesh grid_mesh \<and>
   voxel_based_decomposition junk_zero grid_mesh 5 2 = Some grid_voxel_decomposition \<and>
   parts grid_voxel_decomposition = [grid_part_low, grid_part_high] \<and>
   cell_in_grid grid_mesh 5 (0, 1, 0) \<and>
   triangle_indices grid_part_high = cell_population grid_mesh 5 (0, 1, 0) \<and>
   2 \<le> length (triangle_indices grid_part_high) \<and>
   2 < num_triangles grid_mesh \<and>
   centroid_in_cell grid_mesh 5 2 (0, 0, 1) \<and>
   length (cell_population grid_mesh 5 (0, 0, 1)) < 2 \<and>
   2 \<notin> set (triangle_indices grid_part_low) \<and>
   2 \<notin> set (triangle_indices grid_part_high) \<and>
   distinct (concat (part_triangles grid_voxel_decomposition)) \<and>
   length (concat (part_triangles grid_voxel_decomposition)) < num_triangles grid_mesh"
proof -
  note run = voxel_grid_mesh_5_2
  note enc = bounds_enclose_grid_mesh
  have p: "parts grid_voxel_decomposition = [grid_part_low, grid_part_high]"
    by (simp add: grid_voxel_decomposition_def)
  have c: "cell_in_grid grid_mesh 5 (0, 1, 0)"
    "triangle_indices grid_part_high = cell_population grid_mesh 5 (0, 1, 0)"
    "2 \<le> length (triangle_indices grid_part_high)"
    by (simp_all add: grid_mesh_cells grid_part_high_def)
  have n: "2 < num_triangles grid_mesh"
    "centroid_in_cell grid_mesh 5 2 (0, 0, 1)"
    "length (cell_population grid_mesh 5 (0, 0, 1)) < 2"
    by (simp add: grid_mesh_def, simp add: grid_mesh_cells, simp add: grid_mesh_cells)
  have l: "length (concat (part_triangles grid_voxel_decomposition)) < num_triangles grid_mesh"
    by (simp add: part_triangles_def grid_voxel_decomposition_def grid_part_low_def
        grid_part_high_def grid_mesh_def)
  note t = voxel_parts_from_populated_cells[OF enc run]
  from t n p have "2 \<notin> set (triangle_indices grid_part_low)"
    "2 \<notin> set (triangle_indices grid_part_high)"
    by (metis list.set_intros(1), metis list.set_intros(1,2))
  moreover from t have "distinct (concat (part_triangles grid_voxel_decomposition))"
    by blast
  ultimately show ?thesis
    using run enc p c n l by blast
qed

end
